theory Spec2Isabelle
  imports Complex_Main "HOL-Library.Word"
begin

section \<open>Python strings\<close>

text \<open>
  A Python \<open>str\<close> is modelled as a \<open>string\<close> whose characters are the code points
  below 256 (Latin-1 text, which covers every header the codec can accept).  The
  library functions the code calls are written out with the behaviour CPython gives
  them on such text.
\<close>

definition ord :: "char \<Rightarrow> nat" where
  "ord c = of_char c"

definition newline :: char where
  "newline = CHR 0x0A"

text \<open>\<open>str.isspace\<close> on one character: the whitespace that \<open>str.strip()\<close> removes.\<close>

definition isspace :: "char \<Rightarrow> bool" where
  "isspace c = (ord c \<in> {9, 10, 11, 12, 13, 28, 29, 30, 31, 32, 133, 160})"

definition strip :: "string \<Rightarrow> string" where
  "strip s = rev (dropWhile isspace (rev (dropWhile isspace s)))"

text \<open>\<open>s.split(sep)\<close> for a one-character separator: never the empty list.\<close>

function split :: "char \<Rightarrow> string \<Rightarrow> string list" where
  "split sep s =
     (case dropWhile (\<lambda>c. c \<noteq> sep) s of
        [] \<Rightarrow> [s]
      | _ # rest \<Rightarrow> takeWhile (\<lambda>c. c \<noteq> sep) s # split sep rest)"
  by pat_completeness auto
termination
proof (relation "measure (\<lambda>(sep, s). length s)")
  show "wf (measure (\<lambda>(sep, s). length s))"
    by simp
next
  fix sep :: char and s :: string and x rest
  assume "dropWhile (\<lambda>c. c \<noteq> sep) s = x # rest"
  then have "length rest < length (dropWhile (\<lambda>c. c \<noteq> sep) s)"
    by simp
  also have "\<dots> \<le> length s"
    by (rule length_dropWhile_le)
  finally show "((sep, rest), (sep, s)) \<in> measure (\<lambda>(sep, s). length s)"
    by simp
qed

declare split.simps [simp del]

text \<open>\<open>str.lower\<close> on one character of Latin-1 text.\<close>

definition lower_char :: "char \<Rightarrow> char" where
  "lower_char c =
     (if (65 \<le> ord c \<and> ord c \<le> 90) \<or> (192 \<le> ord c \<and> ord c \<le> 222 \<and> ord c \<noteq> 215)
      then char_of (ord c + 32) else c)"

definition lower :: "string \<Rightarrow> string" where
  "lower s = map lower_char s"

text \<open>The value of a hexadecimal digit, in either case.\<close>

definition hex_val :: "char \<Rightarrow> nat option" where
  "hex_val c =
     (if 48 \<le> ord c \<and> ord c \<le> 57 then Some (ord c - 48)
      else if 97 \<le> ord c \<and> ord c \<le> 102 then Some (ord c - 87)
      else if 65 \<le> ord c \<and> ord c \<le> 70 then Some (ord c - 55)
      else None)"

definition is_hex :: "char \<Rightarrow> bool" where
  "is_hex c = (hex_val c \<noteq> None)"

text \<open>
  \<open>re.match(r"^[0-9a-f]{n}$", s, re.IGNORECASE)\<close>.  Without \<open>re.MULTILINE\<close> the
  anchor \<open>$\<close> matches at the end of the string and also just before a newline that
  is the last character of the string.
\<close>

definition re_match_hex :: "nat \<Rightarrow> string \<Rightarrow> bool" where
  "re_match_hex n s =
     (n \<le> length s \<and> list_all is_hex (take n s) \<and> (drop n s = [] \<or> drop n s = [newline]))"

text \<open>Lower-case hexadecimal digits of a natural number, as \<open>format(n, "x")\<close> prints them.\<close>

definition hex_char :: "nat \<Rightarrow> char" where
  "hex_char d = (if d < 10 then char_of (48 + d) else char_of (87 + d))"

fun to_hex :: "nat \<Rightarrow> string" where
  "to_hex n = (if n < 16 then [hex_char n] else to_hex (n div 16) @ [hex_char (n mod 16)])"

declare to_hex.simps [simp del]

text \<open>
  \<open>f"{n:02x}"\<close>: zero-padded to two characters; the sign of a negative number is
  printed first and counts towards the width.
\<close>

definition format_02x :: "int \<Rightarrow> string" where
  "format_02x n =
     (if n < 0 then CHR ''-'' # to_hex (nat (- n))
      else replicate (2 - length (to_hex (nat n))) CHR ''0'' @ to_hex (nat n))"

text \<open>
  \<open>int(s, 16)\<close>, with \<open>None\<close> for \<open>ValueError\<close>.  The text is stripped of the
  whitespace \<open>int\<close> accepts, then read as an optional sign, an optional \<open>0x\<close> prefix
  (after which one underscore may stand) and hexadecimal digits, single underscores
  being allowed between digits.
\<close>

definition int_space :: "char \<Rightarrow> bool" where
  "int_space c = (ord c \<in> {9, 10, 11, 12, 13, 32, 133, 160})"

fun int_digits :: "int \<Rightarrow> bool \<Rightarrow> string \<Rightarrow> int option" where
  "int_digits acc after_underscore [] = (if after_underscore then None else Some acc)"
| "int_digits acc after_underscore (c # cs) =
     (if c = CHR ''_'' then (if after_underscore then None else int_digits acc True cs)
      else (case hex_val c of
              None \<Rightarrow> None
            | Some d \<Rightarrow> int_digits (16 * acc + int d) False cs))"

definition int_sign :: "string \<Rightarrow> bool \<times> string" where
  "int_sign s =
     (case s of
        [] \<Rightarrow> (False, [])
      | c # cs \<Rightarrow> if c = CHR ''+'' then (False, cs)
                  else if c = CHR ''-'' then (True, cs) else (False, s))"

definition int_prefix :: "string \<Rightarrow> string" where
  "int_prefix s =
     (case s of
        c # x # r \<Rightarrow>
          if c = CHR ''0'' \<and> (x = CHR ''x'' \<or> x = CHR ''X'')
          then (case r of u # r' \<Rightarrow> if u = CHR ''_'' then r' else r | [] \<Rightarrow> r)
          else s
      | _ \<Rightarrow> s)"

definition int16 :: "string \<Rightarrow> int option" where
  "int16 s =
     (let body = rev (dropWhile int_space (rev (dropWhile int_space s)));
          (neg, t) = int_sign body
      in case int_prefix t of
           [] \<Rightarrow> None
         | c # cs \<Rightarrow>
             (case hex_val c of
                None \<Rightarrow> None
              | Some d \<Rightarrow> map_option (\<lambda>v. if neg then - v else v) (int_digits (int d) False cs)))"

section \<open>Trace context codec (tracing/context.py)\<close>

record SpanContext =
  trace_id :: string
  span_id :: string
  trace_flags :: int
  trace_state :: "string option"

definition TRACEPARENT_HEADER :: string where
  "TRACEPARENT_HEADER = ''traceparent''"

definition TRACESTATE_HEADER :: string where
  "TRACESTATE_HEADER = ''tracestate''"

definition TRACE_FLAG_NONE :: int where
  "TRACE_FLAG_NONE = 0"

definition TRACE_FLAG_SAMPLED :: int where
  "TRACE_FLAG_SAMPLED = 1"

definition parse_traceparent :: "string \<Rightarrow> SpanContext option" where
  "parse_traceparent header =
     (if header = [] then None
      else case split CHR ''-'' (strip header) of
        [version, tid, sid, flags_hex] \<Rightarrow>
          if version \<noteq> ''00'' then None
          else if \<not> re_match_hex 32 tid then None
          else if tid = replicate 32 CHR ''0'' then None
          else if \<not> re_match_hex 16 sid then None
          else if sid = replicate 16 CHR ''0'' then None
          else (case int16 flags_hex of
                  None \<Rightarrow> None
                | Some flags \<Rightarrow>
                    Some \<lparr>trace_id = lower tid, span_id = lower sid,
                          trace_flags = flags, trace_state = None\<rparr>)
      | _ \<Rightarrow> None)"

definition create_traceparent :: "SpanContext \<Rightarrow> string" where
  "create_traceparent context =
     ''00'' @ ''-'' @ trace_id context @ ''-'' @ span_id context @ ''-''
       @ format_02x (trace_flags context)"

text \<open>
  \<open>inject_trace_context(headers, context)\<close>; the third argument is the value of the
  context variable \<open>_current_context\<close>, read when no context is passed.
\<close>

definition inject_trace_context ::
  "(string \<rightharpoonup> string) \<Rightarrow> SpanContext option \<Rightarrow> SpanContext option \<Rightarrow> (string \<rightharpoonup> string)" where
  "inject_trace_context headers context current =
     (case (case context of Some c \<Rightarrow> Some c | None \<Rightarrow> current) of
        None \<Rightarrow> headers
      | Some ctx \<Rightarrow>
          let headers' = headers(TRACEPARENT_HEADER \<mapsto> create_traceparent ctx)
          in (case trace_state ctx of
                None \<Rightarrow> headers'
              | Some ts \<Rightarrow> if ts \<noteq> [] then headers'(TRACESTATE_HEADER \<mapsto> ts) else headers'))"

text \<open>
  The contexts of the round-trip law: identifiers of the right length in lower-case
  hexadecimal digits and not all zero, a flags value that is not negative, no vendor
  state.
\<close>

definition is_lower_hex :: "char \<Rightarrow> bool" where
  "is_lower_hex c = ((48 \<le> ord c \<and> ord c \<le> 57) \<or> (97 \<le> ord c \<and> ord c \<le> 102))"

definition valid_context :: "SpanContext \<Rightarrow> bool" where
  "valid_context c =
     (length (trace_id c) = 32 \<and> list_all is_lower_hex (trace_id c)
      \<and> trace_id c \<noteq> replicate 32 CHR ''0''
      \<and> length (span_id c) = 16 \<and> list_all is_lower_hex (span_id c)
      \<and> span_id c \<noteq> replicate 16 CHR ''0''
      \<and> 0 \<le> trace_flags c \<and> trace_state c = None)"

section \<open>Values shared by the models\<close>

text \<open>Exceptions that leave a function of the model.\<close>

datatype error = IndexError | RuntimeError | AttributeError | OverflowError

text \<open>
  A Python \<open>float\<close>: a finite value (every finite float is a rational number),
  an infinity or a NaN.  The code only compares floats with integers and with each
  other, and these comparisons are exact.
\<close>

datatype py_float = Finite rat | PosInf | NegInf | NaN

fun float_ge :: "py_float \<Rightarrow> rat \<Rightarrow> bool" where
  "float_ge (Finite x) q = (q \<le> x)"
| "float_ge PosInf q = True"
| "float_ge NegInf q = False"
| "float_ge NaN q = False"

fun float_le :: "py_float \<Rightarrow> rat \<Rightarrow> bool" where
  "float_le (Finite x) q = (x \<le> q)"
| "float_le PosInf q = False"
| "float_le NegInf q = True"
| "float_le NaN q = False"

text \<open>\<open>r < x\<close> for a finite \<open>r\<close>, as in \<open>random.random() < self.sample_rate\<close>.\<close>

fun float_gt :: "py_float \<Rightarrow> rat \<Rightarrow> bool" where
  "float_gt (Finite x) r = (r < x)"
| "float_gt PosInf r = True"
| "float_gt NegInf r = False"
| "float_gt NaN r = False"

text \<open>
  \<open>os.urandom(n).hex()\<close>: the \<open>n\<close> random bytes are the digits of a \<open>8 n\<close>-bit
  number, printed as \<open>2 n\<close> hexadecimal digits, the most significant first.
\<close>

fun hex_fixed :: "nat \<Rightarrow> nat \<Rightarrow> string" where
  "hex_fixed 0 n = []"
| "hex_fixed (Suc k) n = hex_fixed k (n div 16) @ [hex_char (n mod 16)]"

definition generate_trace_id :: "128 word \<Rightarrow> string" where
  "generate_trace_id random_bytes = hex_fixed 32 (unat random_bytes)"

definition generate_span_id :: "64 word \<Rightarrow> string" where
  "generate_span_id random_bytes = hex_fixed 16 (unat random_bytes)"

text \<open>
  What a call reads from outside the program: the draw of \<open>random.random()\<close>, the
  bytes of the two \<open>os.urandom\<close> calls and the clock \<open>time.time_ns()\<close>.
\<close>

record entropy =
  random_draw :: rat
  urandom16 :: "128 word"
  urandom8 :: "64 word"
  time_ns :: int

section \<open>Spans (types.py, tracing/span.py)\<close>

datatype SpanKind = INTERNAL | SERVER | CLIENT | PRODUCER | CONSUMER

datatype SpanStatusCode = UNSET | OK | ERROR

record SpanStatus =
  code :: SpanStatusCode
  message :: "string option"

datatype attr_value = StrValue string | IntValue int | FloatValue py_float | BoolValue bool

type_synonym attrs = "string \<rightharpoonup> attr_value"

record SpanEvent =
  event_name :: string
  timestamp_ns :: int
  event_attributes :: attrs

text \<open>
  \<open>SpanImpl\<close>.  The fields \<open>_name\<close>, \<open>_kind\<close>, \<open>_trace_id\<close>, \<open>_span_id\<close> and
  \<open>_parent_span_id\<close> carry the prefix \<open>s_\<close>; the others keep the source's names.
\<close>

record SpanImpl =
  s_name :: string
  s_kind :: SpanKind
  s_trace_id :: string
  s_span_id :: string
  s_parent_span_id :: "string option"
  start_time_ns :: int
  end_time_ns :: "int option"
  status :: SpanStatus
  attributes :: attrs
  events :: "SpanEvent list"
  recording :: bool

text \<open>
  \<open>SpanImpl.__init__\<close>.  \<open>trace_id or generate_trace_id()\<close> generates an identifier
  when the argument is \<open>None\<close> or the empty string; \<open>attributes or {}\<close> is the
  empty mapping when the argument is \<open>None\<close> or empty.
\<close>

definition SpanImpl_init ::
  "string \<Rightarrow> SpanKind \<Rightarrow> string option \<Rightarrow> string option \<Rightarrow> attrs option \<Rightarrow> entropy \<Rightarrow> SpanImpl" where
  "SpanImpl_init name kind tid parent_id attrs e =
     \<lparr>s_name = name,
      s_kind = kind,
      s_trace_id = (case tid of
                      None \<Rightarrow> generate_trace_id (urandom16 e)
                    | Some t \<Rightarrow> if t \<noteq> [] then t else generate_trace_id (urandom16 e)),
      s_span_id = generate_span_id (urandom8 e),
      s_parent_span_id = parent_id,
      start_time_ns = time_ns e,
      end_time_ns = None,
      status = \<lparr>code = UNSET, message = None\<rparr>,
      attributes = (case attrs of None \<Rightarrow> Map.empty | Some a \<Rightarrow> a),
      events = [],
      recording = True\<rparr>"


definition set_status :: "SpanStatusCode \<Rightarrow> string option \<Rightarrow> SpanImpl \<Rightarrow> SpanImpl" where
  "set_status c m s =
     (if \<not> recording s then s else s\<lparr>status := \<lparr>code = c, message = m\<rparr>\<rparr>)"

definition set_attribute :: "string \<Rightarrow> attr_value \<Rightarrow> SpanImpl \<Rightarrow> SpanImpl" where
  "set_attribute key v s =
     (if \<not> recording s then s else s\<lparr>attributes := (attributes s)(key \<mapsto> v)\<rparr>)"

definition set_attributes :: "attrs \<Rightarrow> SpanImpl \<Rightarrow> SpanImpl" where
  "set_attributes new s =
     (if \<not> recording s then s else s\<lparr>attributes := attributes s ++ new\<rparr>)"

text \<open>\<open>add_event\<close>; the last argument but one is the clock read for the timestamp.\<close>

definition add_event :: "string \<Rightarrow> attrs option \<Rightarrow> int \<Rightarrow> SpanImpl \<Rightarrow> SpanImpl" where
  "add_event name event_attrs now s =
     (if \<not> recording s then s
      else s\<lparr>events := events s @
             [\<lparr>event_name = name, timestamp_ns = now,
               event_attributes = (case event_attrs of None \<Rightarrow> Map.empty | Some a \<Rightarrow> a)\<rparr>]\<rparr>)"

text \<open>\<open>SpanImpl.end\<close>; the first argument is the clock read for the end time.\<close>

definition end_span :: "int \<Rightarrow> SpanImpl \<Rightarrow> SpanImpl" where
  "end_span now s =
     (if \<not> recording s then s else s\<lparr>end_time_ns := Some now, recording := False\<rparr>)"

definition is_recording :: "SpanImpl \<Rightarrow> bool" where
  "is_recording s = recording s"

definition span_context :: "SpanImpl \<Rightarrow> SpanContext" where
  "span_context s =
     \<lparr>trace_id = s_trace_id s, span_id = s_span_id s,
      trace_flags = TRACE_FLAG_SAMPLED, trace_state = None\<rparr>"

text \<open>The calls a holder of a span can make on it, and a sequence of such calls.\<close>

datatype span_call =
    SetStatus SpanStatusCode "string option"
  | SetAttribute string attr_value
  | SetAttributes attrs
  | AddEvent string "attrs option" int
  | End int

fun call :: "span_call \<Rightarrow> SpanImpl \<Rightarrow> SpanImpl" where
  "call (SetStatus c m) s = set_status c m s"
| "call (SetAttribute k v) s = set_attribute k v s"
| "call (SetAttributes new) s = set_attributes new s"
| "call (AddEvent name event_attrs now) s = add_event name event_attrs now s"
| "call (End now) s = end_span now s"

fun calls :: "span_call list \<Rightarrow> SpanImpl \<Rightarrow> SpanImpl" where
  "calls [] s = s"
| "calls (c # cs) s = calls cs (call c s)"

fun is_End :: "span_call \<Rightarrow> bool" where
  "is_End (End now) = True"
| "is_End other = False"

text \<open>\<open>NoopSpan\<close>: all its mutating methods do nothing.\<close>

record NoopSpan =
  n_trace_id :: string
  n_span_id :: string
  n_name :: string

definition NoopSpan_init :: "SpanContext option \<Rightarrow> entropy \<Rightarrow> NoopSpan" where
  "NoopSpan_init context e =
     \<lparr>n_trace_id = (case context of Some c \<Rightarrow> trace_id c | None \<Rightarrow> generate_trace_id (urandom16 e)),
      n_span_id = (case context of Some c \<Rightarrow> span_id c | None \<Rightarrow> generate_span_id (urandom8 e)),
      n_name = ''noop''\<rparr>"

definition noop_parent_span_id :: "NoopSpan \<Rightarrow> string option" where
  "noop_parent_span_id n = None"

definition noop_is_recording :: "NoopSpan \<Rightarrow> bool" where
  "noop_is_recording n = False"

definition noop_span_context :: "NoopSpan \<Rightarrow> SpanContext" where
  "noop_span_context n =
     \<lparr>trace_id = n_trace_id n, span_id = n_span_id n, trace_flags = 0, trace_state = None\<rparr>"

section \<open>Tracer (tracing/tracer.py)\<close>

text \<open>
  A span as the tracer hands it out: a \<open>SpanImpl\<close> object, named by its address in
  the heap of span objects, or a \<open>NoopSpan\<close>.
\<close>

datatype Span = Recording nat | Noop NoopSpan

text \<open>
  The dictionary \<open>span.to_telemetry_span(service_id, deployment_id).to_dict()\<close>.  The
  keys \<open>parent_span_id\<close> and the status \<open>message\<close> are present only for a value that
  is not empty.
\<close>

record SpanDict =
  d_trace_id :: string
  d_span_id :: string
  d_service_id :: string
  d_deployment_id :: string
  d_operation_name :: string
  d_span_kind :: SpanKind
  d_start_time_ns :: int
  d_duration_ns :: int
  d_status :: SpanStatus
  d_attributes :: attrs
  d_events :: "SpanEvent list"
  d_parent_span_id :: "string option"



record Tracer =
  service_id :: string
  deployment_id :: string
  sample_rate :: py_float
  debug :: bool
  active_spans :: "string \<rightharpoonup> nat"
  finished_spans :: "SpanDict list"

text \<open>
  The state the tracer's methods work on: the \<open>SpanImpl\<close> objects created so far (an
  object's address is its index), the context variable \<open>_current_context\<close>, the
  tracer, and the number of flush tasks handed to the event loop.
\<close>

record state =
  heap :: "SpanImpl list"
  current_context :: "SpanContext option"
  tracer :: Tracer
  flush_tasks :: nat

text \<open>\<open>Tracer._should_sample\<close>; the last argument is the draw of \<open>random.random()\<close>.\<close>

definition should_sample :: "Tracer \<Rightarrow> SpanContext option \<Rightarrow> rat \<Rightarrow> bool" where
  "should_sample t context draw =
     (if float_ge (sample_rate t) 1 then True
      else if float_le (sample_rate t) 0 then False
      else if (case context of
                 None \<Rightarrow> False
               | Some c \<Rightarrow> and (trace_flags c) TRACE_FLAG_SAMPLED \<noteq> 0) then True
      else float_gt (sample_rate t) draw)"

text \<open>\<open>span.span_context()\<close>, \<open>span.is_recording()\<close> and \<open>span.end()\<close> through a handle.\<close>

fun context_of :: "state \<Rightarrow> Span \<Rightarrow> SpanContext" where
  "context_of st (Recording a) = span_context (heap st ! a)"
| "context_of st (Noop n) = noop_span_context n"

fun recording_of :: "state \<Rightarrow> Span \<Rightarrow> bool" where
  "recording_of st (Recording a) = is_recording (heap st ! a)"
| "recording_of st (Noop n) = noop_is_recording n"


text \<open>
  \<open>Tracer.start_span\<close>.  A span object passed as \<open>parent_span\<close> is always true in
  a condition, so the ambient context is read only when none is passed.
\<close>

definition parent_context :: "Span option \<Rightarrow> state \<Rightarrow> SpanContext option" where
  "parent_context parent_span st =
     (case parent_span of
        Some p \<Rightarrow> Some (context_of st p)
      | None \<Rightarrow> current_context st)"

definition new_span ::
  "string \<Rightarrow> string option \<Rightarrow> SpanKind \<Rightarrow> attrs option \<Rightarrow> Span option \<Rightarrow> entropy \<Rightarrow> state
   \<Rightarrow> SpanImpl" where
  "new_span name op kind attrs parent_span e st =
     (let span = SpanImpl_init name kind (map_option trace_id (parent_context parent_span st))
                   (map_option span_id (parent_context parent_span st)) attrs e
      in case op of
           None \<Rightarrow> span
         | Some v \<Rightarrow> if v \<noteq> [] then set_attribute ''syntra.op'' (StrValue v) span else span)"

definition start_span ::
  "string \<Rightarrow> string option \<Rightarrow> SpanKind \<Rightarrow> attrs option \<Rightarrow> Span option \<Rightarrow> entropy \<Rightarrow> state
   \<Rightarrow> Span \<times> state" where
  "start_span name op kind attrs parent_span e st =
     (if \<not> should_sample (tracer st) (current_context st) (random_draw e)
      then (Noop (NoopSpan_init None e), st)
      else
        let span = new_span name op kind attrs parent_span e st;
            a = length (heap st)
        in (Recording a,
            st\<lparr>heap := heap st @ [span],
               tracer := (tracer st)\<lparr>active_spans := (active_spans (tracer st))(s_span_id span \<mapsto> a)\<rparr>,
               current_context := Some (span_context span)\<rparr>))"





text \<open>\<open>Tracer.__init__\<close>, and the state of a process that has just created its tracer.\<close>

definition Tracer_init :: "string \<Rightarrow> string \<Rightarrow> py_float \<Rightarrow> bool \<Rightarrow> Tracer" where
  "Tracer_init service deployment rate dbg =
     \<lparr>service_id = service, deployment_id = deployment, sample_rate = rate, debug = dbg,
      active_spans = Map.empty, finished_spans = []\<rparr>"

definition state_init :: "Tracer \<Rightarrow> state" where
  "state_init t = \<lparr>heap = [], current_context = None, tracer = t, flush_tasks = 0\<rparr>"


section \<open>Transport (transport/base.py)\<close>

text \<open>
  What a transport does to the outside, in order: a call of \<open>send_payload\<close> with its
  payload type and payload, a sleep of some seconds, a line printed in debug mode
  (with the attempt number and the exception's text).
\<close>

datatype 'r effect =
    Send string "'r list"
  | Sleep rat
  | Print_attempt_failed nat string
  | Print_all_failed string

text \<open>
  \<open>send_payload\<close> is abstract in \<open>BaseTransport\<close>.  It is a parameter of the model: from
  the effects so far, the payload type and the payload it tells whether the call
  returns (\<open>None\<close>) or raises an \<open>Exception\<close> (its text).
\<close>

type_synonym 'r sender = "'r effect list \<Rightarrow> string \<Rightarrow> 'r list \<Rightarrow> string option"

text \<open>
  \<open>BaseTransport\<close>, with the records as a type parameter.  The field \<open>debug\<close> is named
  \<open>debug_mode\<close> here; the three queues lose their leading underscore.
\<close>

record 'r BaseTransport =
  url :: string
  public_key :: string
  project_id :: string
  timeout :: py_float
  max_batch_size :: int
  max_retries :: int
  debug_mode :: bool
  error_queue :: "'r list"
  span_queue :: "'r list"
  log_queue :: "'r list"

definition BaseTransport_init ::
  "string \<Rightarrow> string \<Rightarrow> string \<Rightarrow> py_float \<Rightarrow> int \<Rightarrow> int \<Rightarrow> bool \<Rightarrow> 'r BaseTransport" where
  "BaseTransport_init u key project t batch retries dbg =
     \<lparr>url = u, public_key = key, project_id = project, timeout = t, max_batch_size = batch,
      max_retries = retries, debug_mode = dbg, error_queue = [], span_queue = [], log_queue = []\<rparr>"

text \<open>The slices \<open>xs[:m]\<close> and \<open>xs[m:]\<close>; a negative bound counts from the end.\<close>

definition slice_bound :: "'a list \<Rightarrow> int \<Rightarrow> nat" where
  "slice_bound xs m = nat (if m < 0 then int (length xs) + m else m)"

definition slice_to :: "'a list \<Rightarrow> int \<Rightarrow> 'a list" where
  "slice_to xs m = take (slice_bound xs m) xs"

definition slice_from :: "'a list \<Rightarrow> int \<Rightarrow> 'a list" where
  "slice_from xs m = drop (slice_bound xs m) xs"

text \<open>
  \<open>min(1.0 * (2**attempt), 10.0)\<close>.  The power is an integer; multiplying it by
  \<open>1.0\<close> converts it to a float, exactly up to \<open>2**1023\<close>, and raises
  \<open>OverflowError\<close> from \<open>2**1024\<close> on.
\<close>

definition backoff_delay :: "nat \<Rightarrow> error + rat" where
  "backoff_delay attempt =
     (if 1024 \<le> attempt then Inl OverflowError else Inr (min (2 ^ attempt) 10))"

text \<open>
  The loop of \<open>_send_with_retry\<close>, from \<open>attempt\<close> on.  The delay is computed inside
  the \<open>except\<close> block, so an exception there leaves the function.
\<close>

function retry_loop ::
  "'r BaseTransport \<Rightarrow> 'r sender \<Rightarrow> string \<Rightarrow> 'r list \<Rightarrow> nat \<Rightarrow> string option \<Rightarrow> 'r effect list
   \<Rightarrow> error option \<times> 'r effect list" where
  "retry_loop T send payload_type payload attempt last_error tr =
     (if int attempt < max_retries T then
        (case send tr payload_type payload of
           None \<Rightarrow> (None, tr @ [Send payload_type payload])
         | Some e \<Rightarrow>
             let tr1 = tr @ [Send payload_type payload]
                          @ (if debug_mode T then [Print_attempt_failed (attempt + 1) e] else [])
             in if int attempt < max_retries T - 1 then
                  (case backoff_delay attempt of
                     Inl err \<Rightarrow> (Some err, tr1)
                   | Inr delay \<Rightarrow>
                       retry_loop T send payload_type payload (attempt + 1) (Some e)
                         (tr1 @ [Sleep delay]))
                else retry_loop T send payload_type payload (attempt + 1) (Some e) tr1)
      else
        (None,
         tr @ (case last_error of
                 None \<Rightarrow> []
               | Some e \<Rightarrow> if debug_mode T then [Print_all_failed e] else [])))"
  by pat_completeness auto
termination
  by (relation "measure (\<lambda>(T, send, payload_type, payload, attempt, last_error, tr).
                           nat (max_retries T - int attempt))") auto

declare retry_loop.simps [simp del]

definition send_with_retry ::
  "'r BaseTransport \<Rightarrow> 'r sender \<Rightarrow> string \<Rightarrow> 'r list \<Rightarrow> 'r effect list
   \<Rightarrow> error option \<times> 'r effect list" where
  "send_with_retry T send payload_type payload tr =
     retry_loop T send payload_type payload 0 None tr"

text \<open>
  The flush and enqueue methods return the exception that left them, if any, the
  transport and the effects.
\<close>

definition flush_errors ::
  "'r BaseTransport \<Rightarrow> 'r sender \<Rightarrow> 'r effect list
   \<Rightarrow> error option \<times> 'r BaseTransport \<times> 'r effect list" where
  "flush_errors T send tr =
     (if error_queue T = [] then (None, T, tr)
      else
        let errors = slice_to (error_queue T) (max_batch_size T);
            T' = T\<lparr>error_queue := slice_from (error_queue T) (max_batch_size T)\<rparr>;
            r = send_with_retry T' send ''errors'' errors tr
        in (fst r, T', snd r))"

definition flush_spans ::
  "'r BaseTransport \<Rightarrow> 'r sender \<Rightarrow> 'r effect list
   \<Rightarrow> error option \<times> 'r BaseTransport \<times> 'r effect list" where
  "flush_spans T send tr =
     (if span_queue T = [] then (None, T, tr)
      else
        let spans = slice_to (span_queue T) (max_batch_size T);
            T' = T\<lparr>span_queue := slice_from (span_queue T) (max_batch_size T)\<rparr>;
            r = send_with_retry T' send ''spans'' spans tr
        in (fst r, T', snd r))"

definition flush_logs ::
  "'r BaseTransport \<Rightarrow> 'r sender \<Rightarrow> 'r effect list
   \<Rightarrow> error option \<times> 'r BaseTransport \<times> 'r effect list" where
  "flush_logs T send tr =
     (if log_queue T = [] then (None, T, tr)
      else
        let logs = slice_to (log_queue T) (max_batch_size T);
            T' = T\<lparr>log_queue := slice_from (log_queue T) (max_batch_size T)\<rparr>;
            r = send_with_retry T' send ''logs'' logs tr
        in (fst r, T', snd r))"

definition send_error ::
  "'r \<Rightarrow> 'r BaseTransport \<Rightarrow> 'r sender \<Rightarrow> 'r effect list
   \<Rightarrow> error option \<times> 'r BaseTransport \<times> 'r effect list" where
  "send_error err T send tr =
     (let T' = T\<lparr>error_queue := error_queue T @ [err]\<rparr>
      in if max_batch_size T' \<le> int (length (error_queue T')) then flush_errors T' send tr
         else (None, T', tr))"

definition send_spans ::
  "'r list \<Rightarrow> 'r BaseTransport \<Rightarrow> 'r sender \<Rightarrow> 'r effect list
   \<Rightarrow> error option \<times> 'r BaseTransport \<times> 'r effect list" where
  "send_spans spans T send tr =
     (let T' = T\<lparr>span_queue := span_queue T @ spans\<rparr>
      in if max_batch_size T' \<le> int (length (span_queue T')) then flush_spans T' send tr
         else (None, T', tr))"

definition send_logs ::
  "'r list \<Rightarrow> 'r BaseTransport \<Rightarrow> 'r sender \<Rightarrow> 'r effect list
   \<Rightarrow> error option \<times> 'r BaseTransport \<times> 'r effect list" where
  "send_logs logs T send tr =
     (let T' = T\<lparr>log_queue := log_queue T @ logs\<rparr>
      in if max_batch_size T' \<le> int (length (log_queue T')) then flush_logs T' send tr
         else (None, T', tr))"

text \<open>\<open>flush\<close>: errors, then spans, then logs; an exception ends it.\<close>

definition flush ::
  "'r BaseTransport \<Rightarrow> 'r sender \<Rightarrow> 'r effect list
   \<Rightarrow> error option \<times> 'r BaseTransport \<times> 'r effect list" where
  "flush T send tr =
     (case flush_errors T send tr of
        (Some e, T1, tr1) \<Rightarrow> (Some e, T1, tr1)
      | (None, T1, tr1) \<Rightarrow>
          (case flush_spans T1 send tr1 of
             (Some e, T2, tr2) \<Rightarrow> (Some e, T2, tr2)
           | (None, T2, tr2) \<Rightarrow> flush_logs T2 send tr2))"

text \<open>Enqueuing errors one at a time; an exception ends the sequence.\<close>

fun send_error_each ::
  "'r list \<Rightarrow> 'r BaseTransport \<Rightarrow> 'r sender \<Rightarrow> 'r effect list
   \<Rightarrow> error option \<times> 'r BaseTransport \<times> 'r effect list" where
  "send_error_each [] T send tr = (None, T, tr)"
| "send_error_each (e # es) T send tr =
     (case send_error e T send tr of
        (Some ex, T', tr') \<Rightarrow> (Some ex, T', tr')
      | (None, T', tr') \<Rightarrow> send_error_each es T' send tr')"

text \<open>The sends and the sleeps among the effects.\<close>

fun sends :: "'r effect list \<Rightarrow> (string \<times> 'r list) list" where
  "sends [] = []"
| "sends (Send k p # tr) = (k, p) # sends tr"
| "sends (other # tr) = sends tr"

fun sleeps :: "'r effect list \<Rightarrow> rat list" where
  "sleeps [] = []"
| "sleeps (Sleep d # tr) = d # sleeps tr"
| "sleeps (other # tr) = sleeps tr"

text \<open>A \<open>send_payload\<close> that raises on every call.\<close>

definition always_fails :: "'r sender" where
  "always_fails tr payload_type payload = Some ''HTTP 503''"

section \<open>Scopes (types.py, scope.py)\<close>

text \<open>
  Scopes hold mutable dictionaries and lists, and \<open>clone\<close> copies some of them and
  shares others, so the objects live in a store: an object's address is its index, a
  new object is appended.  A value of type \<open>Any\<close> is \<open>None\<close>, a string, an integer, a
  boolean or a reference to an object of the store.
\<close>

datatype pyval = NoneVal | Str string | Int int | Bool bool | Ref nat

datatype BreadcrumbType = HTTP | NAVIGATION | UI | CONSOLE | ERROR_TYPE | QUERY | DEFAULT

datatype BreadcrumbLevel = DEBUG | INFO | WARNING | ERROR_LEVEL | FATAL

text \<open>
  \<open>Breadcrumb\<close>; the fields \<open>type\<close> and \<open>message\<close> are named \<open>crumb_type\<close> and
  \<open>crumb_message\<close>.  \<open>data\<close> refers to the dictionary the caller passed.
\<close>

record Breadcrumb =
  crumb_type :: BreadcrumbType
  category :: string
  timestamp :: string
  crumb_message :: "string option"
  data :: "nat option"
  level :: BreadcrumbLevel

text \<open>
  \<open>Scope\<close>: its fields refer to the dictionaries and lists it works on
  (\<open>_max_breadcrumbs\<close> loses its underscore).
\<close>

record Scope =
  user :: "nat option"
  tags :: nat
  extra :: nat
  breadcrumbs :: nat
  fingerprint :: "nat option"
  max_breadcrumbs :: int

datatype obj =
    Dict (dict_of: "string \<rightharpoonup> pyval")
  | List (list_of: "pyval list")
  | Crumb (crumb_of: Breadcrumb)
  | ScopeObj (scope_of: Scope)

type_synonym store = "obj list"

definition scope_at :: "store \<Rightarrow> nat \<Rightarrow> Scope" where
  "scope_at st sc = scope_of (st ! sc)"

text \<open>\<open>Scope(_max_breadcrumbs=n)\<close>: the default factories make the three containers.\<close>

definition Scope_init :: "int \<Rightarrow> store \<Rightarrow> nat \<times> store" where
  "Scope_init n st =
     (length st + 3,
      st @ [Dict Map.empty, Dict Map.empty, List [],
            ScopeObj \<lparr>user = None, tags = length st, extra = length st + 1,
                      breadcrumbs = length st + 2, fingerprint = None, max_breadcrumbs = n\<rparr>])"

definition set_user :: "nat \<Rightarrow> nat option \<Rightarrow> store \<Rightarrow> store" where
  "set_user sc u st = st[sc := ScopeObj ((scope_at st sc)\<lparr>user := u\<rparr>)]"

definition set_tag :: "nat \<Rightarrow> string \<Rightarrow> string \<Rightarrow> store \<Rightarrow> store" where
  "set_tag sc key v st =
     (let t = tags (scope_at st sc) in st[t := Dict ((dict_of (st ! t))(key \<mapsto> Str v))])"

definition set_tags :: "nat \<Rightarrow> (string \<rightharpoonup> string) \<Rightarrow> store \<Rightarrow> store" where
  "set_tags sc new st =
     (let t = tags (scope_at st sc)
      in st[t := Dict (dict_of (st ! t) ++ (map_option Str \<circ> new))])"

definition set_extra :: "nat \<Rightarrow> string \<Rightarrow> pyval \<Rightarrow> store \<Rightarrow> store" where
  "set_extra sc key v st =
     (let x = extra (scope_at st sc) in st[x := Dict ((dict_of (st ! x))(key \<mapsto> v))])"

definition set_extras :: "nat \<Rightarrow> (string \<rightharpoonup> pyval) \<Rightarrow> store \<Rightarrow> store" where
  "set_extras sc new st =
     (let x = extra (scope_at st sc) in st[x := Dict (dict_of (st ! x) ++ new)])"

definition set_fingerprint :: "nat \<Rightarrow> nat \<Rightarrow> store \<Rightarrow> store" where
  "set_fingerprint sc fp st = st[sc := ScopeObj ((scope_at st sc)\<lparr>fingerprint := Some fp\<rparr>)]"

text \<open>
  The loop \<open>while len(self.breadcrumbs) > self._max_breadcrumbs: self.breadcrumbs.pop(0)\<close>;
  \<open>pop\<close> on the empty list raises \<open>IndexError\<close>.
\<close>

function trim :: "pyval list \<Rightarrow> int \<Rightarrow> error option \<times> pyval list" where
  "trim xs m =
     (if m < int (length xs) then
        (case xs of
           [] \<Rightarrow> (Some IndexError, [])
         | x # rest \<Rightarrow> trim rest m)
      else (None, xs))"
  by pat_completeness auto
termination
  by (relation "measure (\<lambda>(xs, m). length xs)") auto

declare trim.simps [simp del]

text \<open>
  \<open>add_breadcrumb\<close>; \<open>now\<close> is the text of the clock read for the timestamp.  The
  store returned is the one the call leaves behind, also when it raises.
\<close>

definition add_breadcrumb ::
  "nat \<Rightarrow> BreadcrumbType \<Rightarrow> string \<Rightarrow> string option \<Rightarrow> nat option \<Rightarrow> BreadcrumbLevel \<Rightarrow> string
   \<Rightarrow> store \<Rightarrow> error option \<times> store" where
  "add_breadcrumb sc ty cat msg d lvl now st =
     (let s = scope_at st sc;
          b = length st;
          st1 = st @ [Crumb \<lparr>crumb_type = ty, category = cat, timestamp = now,
                             crumb_message = msg, data = d, level = lvl\<rparr>];
          r = trim (list_of (st1 ! breadcrumbs s) @ [Ref b]) (max_breadcrumbs s)
      in (fst r, st1[breadcrumbs s := List (snd r)]))"

definition clear_breadcrumbs :: "nat \<Rightarrow> store \<Rightarrow> store" where
  "clear_breadcrumbs sc st =
     (st @ [List []])[sc := ScopeObj ((scope_at st sc)\<lparr>breadcrumbs := length st\<rparr>)]"

definition clear :: "nat \<Rightarrow> store \<Rightarrow> store" where
  "clear sc st =
     (st @ [Dict Map.empty, Dict Map.empty, List []])
       [sc := ScopeObj ((scope_at st sc)
                 \<lparr>user := None, tags := length st, extra := length st + 1,
                  breadcrumbs := length st + 2, fingerprint := None\<rparr>)]"

text \<open>
  \<open>clone\<close>.  \<open>dict(d)\<close> and \<open>list(l)\<close> make a new object with the same entries; the
  user and the fingerprint are copied when they are not \<open>None\<close> and not empty.
\<close>

definition copy_if_true :: "bool \<Rightarrow> nat option \<Rightarrow> store \<Rightarrow> nat option \<times> store" where
  "copy_if_true is_dict r st =
     (case r of
        None \<Rightarrow> (None, st)
      | Some a \<Rightarrow>
          if (if is_dict then dict_of (st ! a) = Map.empty else list_of (st ! a) = [])
          then (None, st)
          else (Some (length st), st @ [st ! a]))"

definition clone :: "nat \<Rightarrow> store \<Rightarrow> nat \<times> store" where
  "clone sc st =
     (let s = scope_at st sc;
          (u, st1) = copy_if_true True (user s) st;
          t = length st1;
          st2 = st1 @ [Dict (dict_of (st1 ! tags s))];
          x = length st2;
          st3 = st2 @ [Dict (dict_of (st2 ! extra s))];
          b = length st3;
          st4 = st3 @ [List (list_of (st3 ! breadcrumbs s))];
          (f, st5) = copy_if_true False (fingerprint s) st4
      in (length st5,
          st5 @ [ScopeObj \<lparr>user = u, tags = t, extra = x, breadcrumbs = b, fingerprint = f,
                           max_breadcrumbs = max_breadcrumbs s\<rparr>]))"

text \<open>The calls a holder of a scope can make on it, and a sequence of such calls.\<close>

datatype scope_call =
    SetUser "nat option"
  | SetTag string string
  | SetTags "string \<rightharpoonup> string"
  | SetExtra string pyval
  | SetExtras "string \<rightharpoonup> pyval"
  | SetFingerprint nat
  | AddBreadcrumb BreadcrumbType string "string option" "nat option" BreadcrumbLevel string
  | ClearBreadcrumbs
  | Clear

fun apply_call :: "nat \<Rightarrow> scope_call \<Rightarrow> store \<Rightarrow> store" where
  "apply_call sc (SetUser u) st = set_user sc u st"
| "apply_call sc (SetTag k v) st = set_tag sc k v st"
| "apply_call sc (SetTags new) st = set_tags sc new st"
| "apply_call sc (SetExtra k v) st = set_extra sc k v st"
| "apply_call sc (SetExtras new) st = set_extras sc new st"
| "apply_call sc (SetFingerprint fp) st = set_fingerprint sc fp st"
| "apply_call sc (AddBreadcrumb ty cat msg d lvl now) st =
     snd (add_breadcrumb sc ty cat msg d lvl now st)"
| "apply_call sc ClearBreadcrumbs st = clear_breadcrumbs sc st"
| "apply_call sc Clear st = clear sc st"




text \<open>
  The references of a scope lead to objects of the right kind.  A Python program
  cannot build a store where they do not.
\<close>

definition is_dict :: "store \<Rightarrow> nat \<Rightarrow> bool" where
  "is_dict st a = (a < length st \<and> (case st ! a of Dict d \<Rightarrow> True | _ \<Rightarrow> False))"

definition is_list :: "store \<Rightarrow> nat \<Rightarrow> bool" where
  "is_list st a = (a < length st \<and> (case st ! a of List l \<Rightarrow> True | _ \<Rightarrow> False))"

definition is_crumb :: "store \<Rightarrow> pyval \<Rightarrow> bool" where
  "is_crumb st v =
     (case v of
        Ref a \<Rightarrow> a < length st \<and> (case st ! a of Crumb b \<Rightarrow> True | _ \<Rightarrow> False)
      | _ \<Rightarrow> False)"

definition well_formed :: "store \<Rightarrow> nat \<Rightarrow> bool" where
  "well_formed st sc =
     (sc < length st
      \<and> (case st ! sc of
            ScopeObj s \<Rightarrow>
              is_dict st (tags s) \<and> is_dict st (extra s) \<and> is_list st (breadcrumbs s)
              \<and> (case user s of None \<Rightarrow> True | Some u \<Rightarrow> is_dict st u)
              \<and> (case fingerprint s of None \<Rightarrow> True | Some f \<Rightarrow> is_list st f)
          | _ \<Rightarrow> False))"

text \<open>
  What a scope shows at the first level: its user, its tags, its extra values, its
  list of breadcrumbs, its fingerprint (the entries of each container) and its
  capacity.
\<close>

definition shown ::
  "store \<Rightarrow> nat \<Rightarrow> (string \<rightharpoonup> pyval) option \<times> (string \<rightharpoonup> pyval) \<times> (string \<rightharpoonup> pyval)
     \<times> pyval list \<times> pyval list option \<times> int" where
  "shown st sc =
     (let s = scope_at st sc
      in (map_option (\<lambda>u. dict_of (st ! u)) (user s),
          dict_of (st ! tags s),
          dict_of (st ! extra s),
          list_of (st ! breadcrumbs s),
          map_option (\<lambda>f. list_of (st ! f)) (fingerprint s),
          max_breadcrumbs s))"

text \<open>The breadcrumbs of a scope, each read from the object the buffer refers to.\<close>

definition target :: "pyval \<Rightarrow> nat" where
  "target v = (case v of Ref a \<Rightarrow> a | _ \<Rightarrow> 0)"

definition buffer :: "store \<Rightarrow> nat \<Rightarrow> Breadcrumb list" where
  "buffer st sc =
     map (\<lambda>v. crumb_of (st ! target v)) (list_of (st ! breadcrumbs (scope_at st sc)))"

text \<open>The arguments of one \<open>add_breadcrumb\<close> call, and the breadcrumb it builds.\<close>

type_synonym crumb_args =
  "BreadcrumbType \<times> string \<times> string option \<times> nat option \<times> BreadcrumbLevel \<times> string"

definition built :: "crumb_args \<Rightarrow> Breadcrumb" where
  "built a =
     (case a of (ty, cat, msg, d, lvl, now) \<Rightarrow>
        \<lparr>crumb_type = ty, category = cat, timestamp = now, crumb_message = msg, data = d,
         level = lvl\<rparr>)"

text \<open>Breadcrumbs added one after the other; an exception ends the sequence.\<close>

fun add_breadcrumbs :: "nat \<Rightarrow> crumb_args list \<Rightarrow> store \<Rightarrow> error option \<times> store" where
  "add_breadcrumbs sc [] st = (None, st)"
| "add_breadcrumbs sc ((ty, cat, msg, d, lvl, now) # rest) st =
     (case add_breadcrumb sc ty cat msg d lvl now st of
        (Some e, st') \<Rightarrow> (Some e, st')
      | (None, st') \<Rightarrow> add_breadcrumbs sc rest st')"

text \<open>The last \<open>k\<close> elements of a list, in their order.\<close>

definition last_n :: "nat \<Rightarrow> 'a list \<Rightarrow> 'a list" where
  "last_n k xs = drop (length xs - k) xs"

text \<open>
  The objects a scope's methods write to: the scope and its three containers; and the
  objects whose entries the scope shows: these, its user and its fingerprint.
\<close>

definition own :: "store \<Rightarrow> nat \<Rightarrow> nat set" where
  "own st sc =
     {sc, tags (scope_at st sc), extra (scope_at st sc), breadcrumbs (scope_at st sc)}"




text \<open>
  Calls made through several scopes, in any order: each step names the scope and the
  call.
\<close>

fun run :: "(nat \<times> scope_call) list \<Rightarrow> store \<Rightarrow> store" where
  "run [] st = st"
| "run ((x, c) # rest) st = run rest (apply_call x c st)"

text \<open>
  The objects a call makes the scope refer to: the dictionary passed to \<open>set_user\<close>,
  the list passed to \<open>set_fingerprint\<close>.
\<close>

fun stored_refs :: "scope_call \<Rightarrow> nat list" where
  "stored_refs (SetUser (Some u)) = [u]"
| "stored_refs (SetFingerprint fp) = [fp]"
| "stored_refs other = []"

text \<open>
  The objects passed to a call exist and are none of the objects that the methods of
  the scope \<open>y\<close> write to.
\<close>

definition foreign :: "store \<Rightarrow> nat \<Rightarrow> scope_call \<Rightarrow> bool" where
  "foreign st y c = list_all (\<lambda>r. r < length st \<and> r \<notin> own st y) (stored_refs c)"



text \<open>
  A store for examples: a dictionary \<open>{"k": "v"}\<close> of the caller, and a scope with
  one breadcrumb whose \<open>data\<close> is that dictionary.
\<close>

definition example_source :: "nat \<times> store" where
  "example_source =
     (let r = Scope_init 100 [Dict [''k'' \<mapsto> Str ''v'']]
      in (fst r,
          snd (add_breadcrumb (fst r) DEFAULT ''test'' None (Some 0) INFO
                 ''2026-01-01T00:00:00+00:00Z'' (snd r))))"

definition example_clone :: "nat \<times> store" where
  "example_clone = clone (fst example_source) (snd example_source)"

section \<open>Properties of the trace context codec\<close>

lemma ord_simps [simp]:
  "ord CHR ''-'' = 45" "ord CHR ''_'' = 95" "ord CHR ''+'' = 43" "ord CHR ''x'' = 120"
  "ord CHR ''X'' = 88" "ord CHR ''0'' = 48" "ord newline = 10"
  by (simp_all add: ord_def newline_def)

lemma lower_hex_facts:
  assumes "is_lower_hex c"
  shows "\<not> isspace c" "\<not> int_space c" "c \<noteq> CHR ''-''" "c \<noteq> CHR ''_''" "c \<noteq> CHR ''+''"
    "c \<noteq> CHR ''x''" "c \<noteq> CHR ''X''" "lower_char c = c" "is_hex c" "hex_val c \<noteq> None"
  using assms
  by (auto simp: is_lower_hex_def isspace_def int_space_def lower_char_def is_hex_def hex_val_def)

lemma hex_char_lower: "d < 16 \<Longrightarrow> is_lower_hex (hex_char d)"
  by (auto simp: is_lower_hex_def hex_char_def ord_def)

lemma hex_val_hex_char: "d < 16 \<Longrightarrow> hex_val (hex_char d) = Some d"
  by (auto simp: hex_val_def hex_char_def ord_def)

lemma to_hex_lower: "list_all is_lower_hex (to_hex n)"
proof (induction n rule: to_hex.induct)
  case (1 n)
  show ?case
  proof (cases "n < 16")
    case True
    then show ?thesis by (simp add: to_hex.simps [of n] hex_char_lower)
  next
    case False
    with 1 show ?thesis by (simp add: to_hex.simps [of n] hex_char_lower)
  qed
qed

lemma to_hex_nonempty: "to_hex n \<noteq> []"
  by (subst to_hex.simps) simp

lemma int_digits_append:
  "CHR ''_'' \<notin> set xs \<Longrightarrow>
   int_digits acc False (xs @ ys) =
     (case int_digits acc False xs of None \<Rightarrow> None | Some v \<Rightarrow> int_digits v False ys)"
proof (induction xs arbitrary: acc)
  case Nil
  then show ?case by simp
next
  case (Cons x xs)
  then have "x \<noteq> CHR ''_''" and "CHR ''_'' \<notin> set xs"
    by auto
  with Cons.IH show ?case by (simp split: option.splits)
qed

lemma lower_hex_no_underscore: "list_all is_lower_hex xs \<Longrightarrow> CHR ''_'' \<notin> set xs"
  by (induction xs) (auto dest: lower_hex_facts(4))

lemma int_digits_to_hex: "int_digits acc False (to_hex n) = Some (acc * 16 ^ length (to_hex n) + int n)"
proof (induction n arbitrary: acc rule: to_hex.induct)
  case (1 n)
  show ?case
  proof (cases "n < 16")
    case True
    then show ?thesis
      using lower_hex_facts(4) [OF hex_char_lower [of n]]
      by (simp add: to_hex.simps [of n] hex_val_hex_char)
  next
    case False
    have nu: "CHR ''_'' \<notin> set (to_hex (n div 16))"
      by (rule lower_hex_no_underscore [OF to_hex_lower])
    have d: "n mod 16 < 16" by simp
    have "int_digits acc False (to_hex n) =
          int_digits (acc * 16 ^ length (to_hex (n div 16)) + int (n div 16)) False [hex_char (n mod 16)]"
      using False 1 [OF False, of acc] by (simp add: to_hex.simps [of n] int_digits_append [OF nu])
    also have "\<dots> = Some (16 * (acc * 16 ^ length (to_hex (n div 16)) + int (n div 16)) + int (n mod 16))"
      using lower_hex_facts(4) [OF hex_char_lower [OF d]] by (simp add: hex_val_hex_char [OF d])
    also have "16 * (acc * 16 ^ length (to_hex (n div 16)) + int (n div 16)) + int (n mod 16)
             = acc * 16 ^ length (to_hex n) + int n"
      using False by (simp add: to_hex.simps [of n] algebra_simps zmod_int zdiv_int)
    finally show ?thesis .
  qed
qed

lemma int_digits_zeros:
  "int_digits 0 False (replicate k CHR ''0'' @ ys) = int_digits 0 False ys"
  by (induction k) (simp_all add: hex_val_def)


lemma strip_both_id:
  assumes "s \<noteq> []" "\<not> P (hd s)" "\<not> P (last s)"
  shows "rev (dropWhile P (rev (dropWhile P s))) = s"
proof -
  from assms(1,2) have a: "dropWhile P s = s"
    by (cases s) simp_all
  from assms(1) obtain x xs where r: "rev s = x # xs"
    by (cases "rev s") auto
  with assms(1) have "x = last s"
    by (metis hd_rev list.sel(1))
  with assms(3) have "dropWhile P (x # xs) = x # xs"
    by simp
  then have "dropWhile P (rev s) = rev s"
    by (simp only: r)
  with a show ?thesis by simp
qed

lemma int16_lower_hex:
  assumes ne: "s \<noteq> []" and lh: "list_all is_lower_hex s"
  shows "int16 s = int_digits 0 False s"
proof -
  from ne obtain c cs where s: "s = c # cs"
    by (cases s) auto
  from lh s have c: "is_lower_hex c" and cs: "list_all is_lower_hex cs"
    by simp_all
  from ne lh have "is_lower_hex (last s)"
    by (simp add: list_all_iff)
  then have "\<not> int_space (hd s)" "\<not> int_space (last s)"
    using c s by (simp_all add: lower_hex_facts(2))
  then have body: "rev (dropWhile int_space (rev (dropWhile int_space s))) = s"
    by (rule strip_both_id [OF ne])
  have sign: "int_sign s = (False, s)"
    using lower_hex_facts(3,5) [OF c] by (simp add: int_sign_def s)
  have pre: "int_prefix s = s"
  proof (cases cs)
    case Nil
    then show ?thesis by (simp add: int_prefix_def s)
  next
    case (Cons x r)
    with cs have "is_lower_hex x" by simp
    then have "x \<noteq> CHR ''x''" "x \<noteq> CHR ''X''"
      by (rule lower_hex_facts)+
    then show ?thesis by (simp add: int_prefix_def s Cons)
  qed
  obtain d where d: "hex_val c = Some d"
    using lower_hex_facts(10) [OF c] by auto
  have "int16 s = int_digits (int d) False cs"
    by (simp add: int16_def body sign pre s [symmetric]) (simp add: s d option.map_ident)
  also have "\<dots> = int_digits 0 False s"
    using lower_hex_facts(4) [OF c] by (simp add: s d)
  finally show ?thesis .
qed

lemma format_02x_lower:
  assumes "0 \<le> n"
  shows "list_all is_lower_hex (format_02x n)" and "format_02x n \<noteq> []"
proof -
  let ?k = "2 - length (to_hex (nat n))"
  have f: "format_02x n = replicate ?k CHR ''0'' @ to_hex (nat n)"
    using assms by (simp add: format_02x_def)
  have z: "is_lower_hex CHR ''0''"
    by (simp add: is_lower_hex_def)
  show "list_all is_lower_hex (format_02x n)"
    using to_hex_lower [of "nat n"] by (auto simp: f list_all_iff z)
  show "format_02x n \<noteq> []"
    by (simp add: f to_hex_nonempty)
qed

lemma int16_format_02x:
  assumes "0 \<le> n"
  shows "int16 (format_02x n) = Some n"
proof -
  let ?k = "2 - length (to_hex (nat n))"
  have f: "format_02x n = replicate ?k CHR ''0'' @ to_hex (nat n)"
    using assms by (simp add: format_02x_def)
  have "int16 (format_02x n) = int_digits 0 False (format_02x n)"
    by (rule int16_lower_hex [OF format_02x_lower(2,1)]) (rule assms)+
  also have "\<dots> = int_digits 0 False (to_hex (nat n))"
    by (simp add: f int_digits_zeros)
  also have "\<dots> = Some n"
    using assms by (simp add: int_digits_to_hex)
  finally show ?thesis .
qed

lemma split_no_sep: "sep \<notin> set a \<Longrightarrow> split sep a = [a]"
proof -
  assume "sep \<notin> set a"
  then have d: "dropWhile (\<lambda>c. c \<noteq> sep) a = []"
    by (auto simp: dropWhile_eq_Nil_conv)
  show ?thesis
    by (subst split.simps) (simp only: d list.case)
qed

lemma split_first:
  assumes "sep \<notin> set a"
  shows "split sep (a @ sep # r) = a # split sep r"
proof -
  from assms have ns: "\<And>x. x \<in> set a \<Longrightarrow> x \<noteq> sep"
    by auto
  have t: "takeWhile (\<lambda>c. c \<noteq> sep) (a @ sep # r) = a"
    by (simp add: takeWhile_append2 ns)
  have d: "dropWhile (\<lambda>c. c \<noteq> sep) (a @ sep # r) = sep # r"
    by (simp add: dropWhile_append2 ns)
  show ?thesis
    by (subst split.simps) (simp add: t d)
qed

lemma lower_hex_no_dash: "list_all is_lower_hex xs \<Longrightarrow> CHR ''-'' \<notin> set xs"
  by (induction xs) (auto dest: lower_hex_facts(3))

lemma lower_lower_hex: "list_all is_lower_hex xs \<Longrightarrow> lower xs = xs"
  by (induction xs) (auto simp: lower_def lower_hex_facts(8))

lemma re_match_lower_hex:
  "length s = n \<Longrightarrow> list_all is_lower_hex s \<Longrightarrow> re_match_hex n s"
  by (auto simp: re_match_hex_def list_all_iff lower_hex_facts(9))

text \<open>
  C2. Round-trip law of the codec: for every valid context (a trace id of 32 lower-case
  hexadecimal digits that is not all zero, a span id of 16 such digits that is not all
  zero, flags that are not negative, no vendor state), parsing the header that
  \<open>create_traceparent\<close> builds returns that context.
\<close>

theorem traceparent_round_trip:
  assumes "valid_context c"
  shows "parse_traceparent (create_traceparent c) = Some c"
proof -
  let ?t = "trace_id c" and ?s = "span_id c" and ?f = "format_02x (trace_flags c)"
  from assms have t: "length ?t = 32" "list_all is_lower_hex ?t" "?t \<noteq> replicate 32 CHR ''0''"
    and s: "length ?s = 16" "list_all is_lower_hex ?s" "?s \<noteq> replicate 16 CHR ''0''"
    and f: "0 \<le> trace_flags c" and st: "trace_state c = None"
    by (simp_all add: valid_context_def)
  have fl: "list_all is_lower_hex ?f" and fne: "?f \<noteq> []"
    by (rule format_02x_lower [OF f])+
  let ?h = "create_traceparent c"
  have h: "?h = ''00'' @ CHR ''-'' # ?t @ CHR ''-'' # ?s @ CHR ''-'' # ?f"
    by (simp add: create_traceparent_def)
  have "is_lower_hex (last ?f)"
    using fl fne by (simp add: list_all_iff)
  then have "\<not> isspace (last ?h)"
    using fne by (simp add: h lower_hex_facts(1))
  moreover have "\<not> isspace (hd ?h)"
    by (simp add: h isspace_def)
  moreover have hne: "?h \<noteq> []"
    by (simp add: h)
  ultimately have strip: "strip ?h = ?h"
    unfolding strip_def by (intro strip_both_id)
  have "split CHR ''-'' ?h = ''00'' # split CHR ''-'' (?t @ CHR ''-'' # ?s @ CHR ''-'' # ?f)"
    unfolding h by (rule split_first) simp
  also have "split CHR ''-'' (?t @ CHR ''-'' # ?s @ CHR ''-'' # ?f)
             = ?t # split CHR ''-'' (?s @ CHR ''-'' # ?f)"
    by (rule split_first [OF lower_hex_no_dash [OF t(2)]])
  also have "split CHR ''-'' (?s @ CHR ''-'' # ?f) = ?s # split CHR ''-'' ?f"
    by (rule split_first [OF lower_hex_no_dash [OF s(2)]])
  also have "split CHR ''-'' ?f = [?f]"
    by (rule split_no_sep [OF lower_hex_no_dash [OF fl]])
  finally have parts: "split CHR ''-'' (strip ?h) = [''00'', ?t, ?s, ?f]"
    by (simp add: strip)
  have "parse_traceparent ?h =
        Some \<lparr>trace_id = lower ?t, span_id = lower ?s,
              trace_flags = trace_flags c, trace_state = None\<rparr>"
    using hne t(3) s(3)
    by (simp add: parse_traceparent_def parts re_match_lower_hex [OF t(1,2)]
        re_match_lower_hex [OF s(1,2)] int16_format_02x [OF f])
  also have "\<dots> = Some c"
    by (simp add: lower_lower_hex [OF t(2)] lower_lower_hex [OF s(2)] st [symmetric])
  finally show ?thesis .
qed

theorem traceparent_round_trip_witness:
  "valid_context \<lparr>trace_id = ''4bf92f3577b34da6a3ce929d0e0e4736'', span_id = ''00f067aa0ba902b7'',
                    trace_flags = 1, trace_state = None\<rparr>
   \<and> parse_traceparent
        (create_traceparent \<lparr>trace_id = ''4bf92f3577b34da6a3ce929d0e0e4736'',
           span_id = ''00f067aa0ba902b7'', trace_flags = 1, trace_state = None\<rparr>)
       = Some \<lparr>trace_id = ''4bf92f3577b34da6a3ce929d0e0e4736'', span_id = ''00f067aa0ba902b7'',
                 trace_flags = 1, trace_state = None\<rparr>"
proof -
  have v: "valid_context \<lparr>trace_id = ''4bf92f3577b34da6a3ce929d0e0e4736'',
             span_id = ''00f067aa0ba902b7'', trace_flags = 1, trace_state = None\<rparr>"
    by code_simp
  show ?thesis
    by (rule conjI [OF v traceparent_round_trip [OF v]])
qed

text \<open>
  What \<open>parse_traceparent\<close> accepts: exactly four fields, the version \<open>00\<close>, identifiers
  that match the patterns and are not the all-zero strings, flags that \<open>int\<close> reads.
\<close>

lemma parse_traceparent_fields:
  assumes "parse_traceparent h = Some c"
  shows "\<exists>tid sid fl. h \<noteq> [] \<and> split CHR ''-'' (strip h) = [''00'', tid, sid, fl]
           \<and> re_match_hex 32 tid \<and> tid \<noteq> replicate 32 CHR ''0''
           \<and> re_match_hex 16 sid \<and> sid \<noteq> replicate 16 CHR ''0''
           \<and> int16 fl = Some (trace_flags c)
           \<and> trace_id c = lower tid \<and> span_id c = lower sid \<and> trace_state c = None"
proof -
  from assms have ne: "h \<noteq> []"
    by (auto simp: parse_traceparent_def)
  from assms ne obtain v tid sid fl where parts: "split CHR ''-'' (strip h) = [v, tid, sid, fl]"
    by (auto simp: parse_traceparent_def split: list.splits)
  from assms ne show ?thesis
    unfolding parse_traceparent_def parts
    by (auto split: if_splits option.splits)
qed

text \<open>
  A field without a newline that matches the pattern is exactly \<open>n\<close> hexadecimal digits.
\<close>

lemma re_match_hex_exact:
  assumes "re_match_hex n s" and "newline \<notin> set s"
  shows "length s = n \<and> list_all is_hex s"
proof -
  from assms(1) have n: "n \<le> length s" and h: "list_all is_hex (take n s)"
    and d: "drop n s = [] \<or> drop n s = [newline]"
    by (simp_all add: re_match_hex_def)
  have "drop n s \<noteq> [newline]"
  proof
    assume "drop n s = [newline]"
    then have "newline \<in> set (drop n s)"
      by simp
    then have "newline \<in> set s"
      by (rule in_set_dropD)
    with assms(2) show False
      by simp
  qed
  with d have "drop n s = []"
    by simp
  with n have "length s = n"
    by simp
  with h show ?thesis
    by simp
qed

text \<open>
  C3. The claim is that a header whose trace-id field is not exactly 32 hexadecimal
  digits is rejected.  The code accepts a trace-id field of 33 characters, 32 digits
  followed by a newline: the pattern's \<open>$\<close> also matches just before a final newline,
  and the newline is kept in the returned trace id.
\<close>

theorem parse_traceparent_accepts_newline:
  "parse_traceparent
     (''00-4bf92f3577b34da6a3ce929d0e0e4736'' @ [newline] @ ''-00f067aa0ba902b7-01'')
   = Some \<lparr>trace_id = ''4bf92f3577b34da6a3ce929d0e0e4736'' @ [newline],
             span_id = ''00f067aa0ba902b7'', trace_flags = 1, trace_state = None\<rparr>"
  by code_simp

section \<open>Properties of spans and of the tracer\<close>

lemma call_not_recording: "\<not> recording s \<Longrightarrow> call c s = s"
  by (cases c) (simp_all add: set_status_def set_attribute_def set_attributes_def add_event_def end_span_def)

lemma calls_not_recording: "\<not> recording s \<Longrightarrow> calls cs s = s"
  by (induction cs) (simp_all add: call_not_recording)

lemma call_keeps_recording: "\<not> is_End c \<Longrightarrow> recording (call c s) = recording s"
  by (cases c) (simp_all add: set_status_def set_attribute_def set_attributes_def add_event_def)

lemma calls_keep_recording: "list_all (\<lambda>c. \<not> is_End c) cs \<Longrightarrow> recording (calls cs s) = recording s"
  by (induction cs arbitrary: s) (simp_all add: call_keeps_recording)

text \<open>
  C7. A new span is recording.  For every recording span, calls other than \<open>end\<close> keep
  it recording; the first \<open>end\<close> stops the recording and sets the end time, a second
  \<open>end\<close> changes nothing (end time and duration stay), and so does every later call.
  On a span that no longer records, \<open>set_status\<close>, \<open>set_attribute\<close>,
  \<open>set_attributes\<close>, \<open>add_event\<close> and \<open>end\<close> leave the whole span unchanged.
\<close>

theorem span_end_irreversible:
  "recording (SpanImpl_init name kind tid parent attrs e)
   \<and> (recording s \<and> list_all (\<lambda>c. \<not> is_End c) before \<longrightarrow>
        recording (calls before s)
        \<and> \<not> recording (end_span now (calls before s))
        \<and> end_time_ns (end_span now (calls before s)) = Some now
        \<and> end_span later (end_span now (calls before s)) = end_span now (calls before s)
        \<and> calls after (end_span now (calls before s)) = end_span now (calls before s))
   \<and> (\<not> recording s \<longrightarrow>
        set_status c m s = s \<and> set_attribute key v s = s \<and> set_attributes new s = s
        \<and> add_event ev event_attrs t s = s \<and> end_span t s = s \<and> calls after s = s)"
proof (intro conjI impI)
  show "recording (SpanImpl_init name kind tid parent attrs e)"
    by (simp add: SpanImpl_init_def)
next
  assume a: "recording s \<and> list_all (\<lambda>c. \<not> is_End c) before"
  then show r: "recording (calls before s)"
    by (simp add: calls_keep_recording)
  then show e: "\<not> recording (end_span now (calls before s))"
    by (simp add: end_span_def)
  from r show "end_time_ns (end_span now (calls before s)) = Some now"
    by (simp add: end_span_def)
  from e show "end_span later (end_span now (calls before s)) = end_span now (calls before s)"
    by (simp add: end_span_def)
  from e show "calls after (end_span now (calls before s)) = end_span now (calls before s)"
    by (rule calls_not_recording)
next
  assume n: "\<not> recording s"
  then show "set_status c m s = s" "set_attribute key v s = s" "set_attributes new s = s"
    "add_event ev event_attrs t s = s" "end_span t s = s"
    by (simp_all add: set_status_def set_attribute_def set_attributes_def add_event_def end_span_def)
  from n show "calls after s = s"
    by (rule calls_not_recording)
qed

theorem span_end_irreversible_witness:
  "recording (SpanImpl_init ''op'' INTERNAL None None None
      \<lparr>random_draw = 0, urandom16 = 1, urandom8 = 2, time_ns = 1000\<rparr>)
   \<and> \<not> recording (end_span 2000 (SpanImpl_init ''op'' INTERNAL None None None
      \<lparr>random_draw = 0, urandom16 = 1, urandom8 = 2, time_ns = 1000\<rparr>))
   \<and> set_status ERROR (Some ''late'') (end_span 2000 (SpanImpl_init ''op'' INTERNAL None None None
      \<lparr>random_draw = 0, urandom16 = 1, urandom8 = 2, time_ns = 1000\<rparr>))
     = end_span 2000 (SpanImpl_init ''op'' INTERNAL None None None
      \<lparr>random_draw = 0, urandom16 = 1, urandom8 = 2, time_ns = 1000\<rparr>)"
proof -
  let ?e = "\<lparr>random_draw = 0, urandom16 = 1, urandom8 = 2, time_ns = 1000\<rparr>"
  let ?s = "SpanImpl_init ''op'' INTERNAL None None None ?e"
  have r: "recording ?s"
    by (rule span_end_irreversible [THEN conjunct1])
  have b: "recording ?s \<and> list_all (\<lambda>c. \<not> is_End c) []"
    using r by simp
  have n: "\<not> recording (end_span 2000 (calls [] ?s))"
    by (rule span_end_irreversible [THEN conjunct2, THEN conjunct1, THEN mp, OF b,
          THEN conjunct2, THEN conjunct1])
  then have n': "\<not> recording (end_span 2000 ?s)"
    by simp
  have "set_status ERROR (Some ''late'') (end_span 2000 ?s) = end_span 2000 ?s"
    by (rule span_end_irreversible [THEN conjunct2, THEN conjunct2, THEN mp, OF n',
          THEN conjunct1])
  with r n' show ?thesis
    by (intro conjI)
qed

lemma format_02x_1: "format_02x 1 = ''01''"
  by code_simp

text \<open>
  C10. The context of a \<open>SpanImpl\<close> always carries the sampled flag 1, whatever the
  span's state, so injecting it writes a \<open>traceparent\<close> ending in \<open>01\<close>; the context
  of a \<open>NoopSpan\<close> carries the flags 0, and a \<open>NoopSpan\<close> has no parent span id.
\<close>

theorem span_context_flags:
  "trace_flags (span_context s) = 1
   \<and> inject_trace_context headers (Some (span_context s)) current TRACEPARENT_HEADER
       = Some (''00-'' @ s_trace_id s @ ''-'' @ s_span_id s @ ''-01'')
   \<and> trace_flags (noop_span_context n) = 0
   \<and> noop_parent_span_id n = None"
  by (simp add: span_context_def TRACE_FLAG_SAMPLED_def inject_trace_context_def
      create_traceparent_def format_02x_1 noop_span_context_def noop_parent_span_id_def)


lemma recording_new_span: "recording (new_span name op kind attrs parent e st)"
  by (simp add: new_span_def Let_def SpanImpl_init_def set_attribute_def split: option.splits)

lemma start_span_sampled:
  "should_sample (tracer st) (current_context st) (random_draw e) \<Longrightarrow>
   fst (start_span name op kind attrs parent e st) = Recording (length (heap st))
   \<and> recording (heap (snd (start_span name op kind attrs parent e st)) ! length (heap st))"
  by (simp add: start_span_def Let_def recording_new_span)

lemma start_span_not_sampled:
  "\<not> should_sample (tracer st) (current_context st) (random_draw e) \<Longrightarrow>
   start_span name op kind attrs parent e st = (Noop (NoopSpan_init None e), st)"
  by (simp add: start_span_def)

text \<open>
  C1. Sampling precedence of \<open>start_span\<close>: with a rate of at least 1 the span returned
  is recording; with a rate of at most 0 it is not, whatever the ambient context; with
  a rate strictly between 0 and 1 and an ambient context that has the sampled flag it
  is recording, whatever the random draw.
\<close>

theorem start_span_sampling_precedence:
  "(float_ge (sample_rate (tracer st)) 1 \<longrightarrow>
      recording_of (snd (start_span name op kind attrs parent e st))
        (fst (start_span name op kind attrs parent e st)))
   \<and> (float_le (sample_rate (tracer st)) 0 \<longrightarrow>
      \<not> recording_of (snd (start_span name op kind attrs parent e st))
          (fst (start_span name op kind attrs parent e st)))
   \<and> (sample_rate (tracer st) = Finite x \<and> 0 < x \<and> x < 1
       \<and> current_context st = Some c \<and> and (trace_flags c) TRACE_FLAG_SAMPLED \<noteq> 0 \<longrightarrow>
      recording_of (snd (start_span name op kind attrs parent e st))
        (fst (start_span name op kind attrs parent e st)))"
proof (intro conjI impI)
  assume "float_ge (sample_rate (tracer st)) 1"
  then have "should_sample (tracer st) (current_context st) (random_draw e)"
    by (simp add: should_sample_def)
  from start_span_sampled [OF this]
  show "recording_of (snd (start_span name op kind attrs parent e st))
          (fst (start_span name op kind attrs parent e st))"
    by (simp add: is_recording_def)
next
  assume le: "float_le (sample_rate (tracer st)) 0"
  then have "\<not> float_ge (sample_rate (tracer st)) 1"
    by (cases "sample_rate (tracer st)") simp_all
  with le have "\<not> should_sample (tracer st) (current_context st) (random_draw e)"
    by (simp add: should_sample_def)
  from start_span_not_sampled [OF this]
  show "\<not> recording_of (snd (start_span name op kind attrs parent e st))
            (fst (start_span name op kind attrs parent e st))"
    by (simp add: noop_is_recording_def)
next
  assume "sample_rate (tracer st) = Finite x \<and> 0 < x \<and> x < 1
       \<and> current_context st = Some c \<and> and (trace_flags c) TRACE_FLAG_SAMPLED \<noteq> 0"
  then have "should_sample (tracer st) (current_context st) (random_draw e)"
    by (simp add: should_sample_def)
  from start_span_sampled [OF this]
  show "recording_of (snd (start_span name op kind attrs parent e st))
          (fst (start_span name op kind attrs parent e st))"
    by (simp add: is_recording_def)
qed

theorem start_span_sampling_precedence_witness:
  "recording_of
     (snd (start_span ''op'' None INTERNAL None None
        \<lparr>random_draw = 3 / 4, urandom16 = 1, urandom8 = 2, time_ns = 1000\<rparr>
        (state_init (Tracer_init ''svc'' ''dep'' (Finite 1) False))))
     (fst (start_span ''op'' None INTERNAL None None
        \<lparr>random_draw = 3 / 4, urandom16 = 1, urandom8 = 2, time_ns = 1000\<rparr>
        (state_init (Tracer_init ''svc'' ''dep'' (Finite 1) False))))
   \<and> \<not> recording_of
     (snd (start_span ''op'' None INTERNAL None None
        \<lparr>random_draw = 0, urandom16 = 1, urandom8 = 2, time_ns = 1000\<rparr>
        ((state_init (Tracer_init ''svc'' ''dep'' (Finite 0) False))
           \<lparr>current_context := Some \<lparr>trace_id = ''4bf92f3577b34da6a3ce929d0e0e4736'',
              span_id = ''00f067aa0ba902b7'', trace_flags = 1, trace_state = None\<rparr>\<rparr>)))
     (fst (start_span ''op'' None INTERNAL None None
        \<lparr>random_draw = 0, urandom16 = 1, urandom8 = 2, time_ns = 1000\<rparr>
        ((state_init (Tracer_init ''svc'' ''dep'' (Finite 0) False))
           \<lparr>current_context := Some \<lparr>trace_id = ''4bf92f3577b34da6a3ce929d0e0e4736'',
              span_id = ''00f067aa0ba902b7'', trace_flags = 1, trace_state = None\<rparr>\<rparr>)))
   \<and> recording_of
     (snd (start_span ''op'' None INTERNAL None None
        \<lparr>random_draw = 3 / 4, urandom16 = 1, urandom8 = 2, time_ns = 1000\<rparr>
        ((state_init (Tracer_init ''svc'' ''dep'' (Finite (1 / 2)) False))
           \<lparr>current_context := Some \<lparr>trace_id = ''4bf92f3577b34da6a3ce929d0e0e4736'',
              span_id = ''00f067aa0ba902b7'', trace_flags = 1, trace_state = None\<rparr>\<rparr>)))
     (fst (start_span ''op'' None INTERNAL None None
        \<lparr>random_draw = 3 / 4, urandom16 = 1, urandom8 = 2, time_ns = 1000\<rparr>
        ((state_init (Tracer_init ''svc'' ''dep'' (Finite (1 / 2)) False))
           \<lparr>current_context := Some \<lparr>trace_id = ''4bf92f3577b34da6a3ce929d0e0e4736'',
              span_id = ''00f067aa0ba902b7'', trace_flags = 1, trace_state = None\<rparr>\<rparr>)))"
proof -
  let ?c = "\<lparr>trace_id = ''4bf92f3577b34da6a3ce929d0e0e4736'', span_id = ''00f067aa0ba902b7'',
             trace_flags = 1, trace_state = None\<rparr>"
  let ?full = "state_init (Tracer_init ''svc'' ''dep'' (Finite 1) False)"
  let ?zero = "(state_init (Tracer_init ''svc'' ''dep'' (Finite 0) False))\<lparr>current_context := Some ?c\<rparr>"
  let ?half = "(state_init (Tracer_init ''svc'' ''dep'' (Finite (1 / 2)) False))\<lparr>current_context := Some ?c\<rparr>"
  have h1: "float_ge (sample_rate (tracer ?full)) 1"
    by (simp add: state_init_def Tracer_init_def)
  have h2: "float_le (sample_rate (tracer ?zero)) 0"
    by (simp add: state_init_def Tracer_init_def)
  have h3: "sample_rate (tracer ?half) = Finite (1 / 2) \<and> (0::rat) < 1 / 2 \<and> (1 / 2 :: rat) < 1
            \<and> current_context ?half = Some ?c \<and> and (trace_flags ?c) TRACE_FLAG_SAMPLED \<noteq> 0"
    by (simp add: state_init_def Tracer_init_def TRACE_FLAG_SAMPLED_def)
  show ?thesis
    by (intro conjI
          start_span_sampling_precedence [THEN conjunct1, THEN mp, OF h1]
          start_span_sampling_precedence [THEN conjunct2, THEN conjunct1, THEN mp, OF h2]
          start_span_sampling_precedence [THEN conjunct2, THEN conjunct2, THEN mp, OF h3])
qed

lemma length_hex_fixed [simp]: "length (hex_fixed k n) = k"
  by (induction k arbitrary: n) simp_all






lemma end_span_ids [simp]:
  "s_span_id (end_span now s) = s_span_id s"
  "s_parent_span_id (end_span now s) = s_parent_span_id s"
  "span_context (end_span now s) = span_context s"
  by (simp_all add: end_span_def span_context_def)











section \<open>Properties of the transport\<close>

lemma sends_append: "sends (xs @ ys) = sends xs @ sends ys"
  by (induction xs rule: sends.induct) simp_all

lemma sleeps_append: "sleeps (xs @ ys) = sleeps xs @ sleeps ys"
  by (induction xs rule: sleeps.induct) simp_all

lemma retry_loop_done:
  "\<not> int attempt < max_retries T \<Longrightarrow>
   retry_loop T send p pl attempt le tr =
     (None, tr @ (case le of None \<Rightarrow> []
                  | Some e \<Rightarrow> if debug_mode T then [Print_all_failed e] else []))"
  by (subst retry_loop.simps) simp

lemma retry_loop_success:
  "int attempt < max_retries T \<Longrightarrow> send tr p pl = None \<Longrightarrow>
   retry_loop T send p pl attempt le tr = (None, tr @ [Send p pl])"
  by (subst retry_loop.simps) simp

lemma retry_loop_last:
  "int attempt < max_retries T \<Longrightarrow> send tr p pl = Some e \<Longrightarrow> \<not> int attempt < max_retries T - 1 \<Longrightarrow>
   retry_loop T send p pl attempt le tr =
     retry_loop T send p pl (attempt + 1) (Some e)
       (tr @ [Send p pl] @ (if debug_mode T then [Print_attempt_failed (attempt + 1) e] else []))"
  by (subst retry_loop.simps) (simp add: Let_def)

lemma retry_loop_sleep:
  "int attempt < max_retries T - 1 \<Longrightarrow> send tr p pl = Some e \<Longrightarrow> attempt < 1024 \<Longrightarrow>
   retry_loop T send p pl attempt le tr =
     retry_loop T send p pl (attempt + 1) (Some e)
       (tr @ [Send p pl] @ (if debug_mode T then [Print_attempt_failed (attempt + 1) e] else [])
          @ [Sleep (min (2 ^ attempt) 10)])"
  by (subst retry_loop.simps) (simp add: Let_def backoff_delay_def)

lemma retry_loop_overflow:
  "int attempt < max_retries T - 1 \<Longrightarrow> send tr p pl = Some e \<Longrightarrow> 1024 \<le> attempt \<Longrightarrow>
   retry_loop T send p pl attempt le tr =
     (Some OverflowError,
      tr @ [Send p pl] @ (if debug_mode T then [Print_attempt_failed (attempt + 1) e] else []))"
  by (subst retry_loop.simps) (simp add: Let_def backoff_delay_def)

lemma retry_loop_all_fail:
  assumes fail: "\<And>tr. send tr p pl \<noteq> None" and small: "max_retries T \<le> 1025"
  shows "fst (retry_loop T send p pl a le tr) = None
       \<and> sends (snd (retry_loop T send p pl a le tr))
           = sends tr @ replicate (nat (max_retries T - int a)) (p, pl)
       \<and> sleeps (snd (retry_loop T send p pl a le tr))
           = sleeps tr @ map (\<lambda>k. min (2 ^ k) 10) [a..<nat (max_retries T - 1)]"
proof (induction "nat (max_retries T - int a)" arbitrary: a le tr)
  case 0
  then have d: "\<not> int a < max_retries T"
    by simp
  then have "nat (max_retries T - 1) \<le> a"
    by simp
  with d 0 show ?case
    by (simp add: retry_loop_done sends_append sleeps_append split: option.splits)
next
  case (Suc n)
  then have lt: "int a < max_retries T"
    by simp
  from fail [of tr] obtain e where e: "send tr p pl = Some e"
    by (cases "send tr p pl") simp_all
  from Suc(2) have n: "n = nat (max_retries T - int (a + 1))"
    by simp
  from Suc(2) have r: "nat (max_retries T - int a) = Suc (nat (max_retries T - int (a + 1)))"
    by simp
  have rep: "replicate (nat (max_retries T - int a)) (p, pl)
             = (p, pl) # replicate (nat (max_retries T - int (a + 1))) (p, pl)"
    by (simp only: r replicate_Suc)
  show ?case
  proof (cases "int a < max_retries T - 1")
    case True
    with small have a: "a < 1024"
      by simp
    let ?tr1 = "tr @ [Send p pl] @ (if debug_mode T then [Print_attempt_failed (a + 1) e] else [])
                  @ [Sleep (min (2 ^ a) 10)]"
    have step: "retry_loop T send p pl a le tr = retry_loop T send p pl (a + 1) (Some e) ?tr1"
      by (rule retry_loop_sleep [where send = send and tr = tr and p = p and pl = pl, OF True e a])
    have s1: "sends ?tr1 = sends tr @ [(p, pl)]" and s2: "sleeps ?tr1 = sleeps tr @ [min (2 ^ a) 10]"
      by (simp_all add: sends_append sleeps_append)
    from True have u: "[a..<nat (max_retries T - 1)] = a # [a + 1..<nat (max_retries T - 1)]"
      by (simp add: upt_conv_Cons)
    from Suc(1) [OF n, of "Some e" ?tr1] show ?thesis
      unfolding step s1 s2 rep u by simp
  next
    case False
    with lt have m: "nat (max_retries T - 1) = a"
      by simp
    let ?tr1 = "tr @ [Send p pl] @ (if debug_mode T then [Print_attempt_failed (a + 1) e] else [])"
    have step: "retry_loop T send p pl a le tr = retry_loop T send p pl (a + 1) (Some e) ?tr1"
      by (rule retry_loop_last [where send = send and tr = tr and p = p and pl = pl, OF lt e False])
    have s1: "sends ?tr1 = sends tr @ [(p, pl)]" and s2: "sleeps ?tr1 = sleeps tr"
      by (simp_all add: sends_append sleeps_append)
    from Suc(1) [OF n, of "Some e" ?tr1] show ?thesis
      unfolding step s1 s2 rep m by simp
  qed
qed

lemma retry_loop_all_fail_overflow:
  assumes fail: "\<And>tr. send tr p pl \<noteq> None" and big: "1026 \<le> max_retries T" and a: "a \<le> 1024"
  shows "fst (retry_loop T send p pl a le tr) = Some OverflowError
       \<and> length (sends (snd (retry_loop T send p pl a le tr))) = length (sends tr) + (1025 - a)"
  using a
proof (induction "1024 - a" arbitrary: a le tr)
  case 0
  then have a: "a = 1024"
    by simp
  from fail [of tr] obtain e where e: "send tr p pl = Some e"
    by (cases "send tr p pl") simp_all
  from big a have lt: "int a < max_retries T - 1"
    by simp
  have "1024 \<le> a"
    using a by simp
  from retry_loop_overflow [where send = send and tr = tr and p = p and pl = pl, OF lt e this]
  show ?case
    by (simp add: sends_append a)
next
  case (Suc n)
  then have a: "a < 1024" and n: "n = 1024 - (a + 1)" and a1: "a + 1 \<le> 1024"
    by simp_all
  from fail [of tr] obtain e where e: "send tr p pl = Some e"
    by (cases "send tr p pl") simp_all
  from big a have lt: "int a < max_retries T - 1"
    by simp
  let ?tr1 = "tr @ [Send p pl] @ (if debug_mode T then [Print_attempt_failed (a + 1) e] else [])
                @ [Sleep (min (2 ^ a) 10)]"
  have step: "retry_loop T send p pl a le tr = retry_loop T send p pl (a + 1) (Some e) ?tr1"
    by (rule retry_loop_sleep [where send = send and tr = tr and p = p and pl = pl, OF lt e a])
  have s1: "sends ?tr1 = sends tr @ [(p, pl)]"
    by (simp add: sends_append)
  from Suc(1) [OF n a1, of "Some e" ?tr1] a show ?case
    unfolding step s1 by simp
qed

lemma backoff_delays_sorted_capped:
  "sorted (map (\<lambda>k. min (2 ^ k) (10::rat)) [0..<m])
   \<and> list_all (\<lambda>d. d \<le> 10) (map (\<lambda>k. min (2 ^ k) (10::rat)) [0..<m])"
proof -
  have "mono (\<lambda>k::nat. min (2 ^ k) (10::rat))"
    by (rule monoI) (simp add: min_le_iff_disj power_increasing)
  then have "sorted (map (\<lambda>k. min (2 ^ k) (10::rat)) [0..<m])"
    by (simp add: sorted_map mono_def sorted_wrt_iff_nth_less)
  then show ?thesis
    by (simp add: list_all_iff)
qed

text \<open>
  What holds of \<open>_send_with_retry\<close> when every attempt fails and \<open>max_retries\<close> is at
  most 1025: it returns, after \<open>max_retries\<close> sends of the same batch, with the sleeps
  \<open>min(2^attempt, 10)\<close> between consecutive attempts.
\<close>

lemma send_with_retry_all_fail:
  assumes "\<And>tr. send tr p pl \<noteq> None" and "max_retries T \<le> 1025"
  shows "fst (send_with_retry T send p pl tr) = None
       \<and> sends (snd (send_with_retry T send p pl tr))
           = sends tr @ replicate (nat (max_retries T)) (p, pl)
       \<and> sleeps (snd (send_with_retry T send p pl tr))
           = sleeps tr @ map (\<lambda>k. min (2 ^ k) 10) [0..<nat (max_retries T - 1)]"
  using retry_loop_all_fail [where send = send and p = p and pl = pl, OF assms, of 0 None tr]
  by (simp add: send_with_retry_def)

text \<open>
  C4. The claim is that \<open>_send_with_retry\<close> sends \<open>max_retries\<close> times and returns without
  raising when every attempt fails.  With \<open>max_retries = 1026\<close> it raises
  \<open>OverflowError\<close> after 1025 sends: the delay \<open>1.0 * (2**1024)\<close> is computed before
  it is capped, and the integer is too large for a float.
\<close>

theorem send_with_retry_overflow:
  "fst (send_with_retry
          (BaseTransport_init ''http://localhost:3000/api/v1/telemetry'' ''pk_x'' ''proj_y''
             (Finite 30) 100 1026 False)
          always_fails ''errors'' [()] [])
     = Some OverflowError
   \<and> length (sends (snd (send_with_retry
          (BaseTransport_init ''http://localhost:3000/api/v1/telemetry'' ''pk_x'' ''proj_y''
             (Finite 30) 100 1026 False)
          always_fails ''errors'' [()] [])))
     = 1025"
proof -
  let ?T = "BaseTransport_init ''http://localhost:3000/api/v1/telemetry'' ''pk_x'' ''proj_y''
              (Finite 30) 100 1026 False :: unit BaseTransport"
  have fail: "\<And>tr. always_fails tr ''errors'' [()] \<noteq> None"
    by (simp add: always_fails_def)
  have big: "1026 \<le> max_retries ?T"
    by (simp add: BaseTransport_init_def)
  from retry_loop_all_fail_overflow [where send = always_fails and p = "''errors''" and pl = "[()]",
      OF fail big, of 0 None "[]"]
  show ?thesis
    by (simp add: send_with_retry_def)
qed

lemma send_error_below:
  "int (length (error_queue T)) + 1 < max_batch_size T \<Longrightarrow>
   send_error e T send tr = (None, T\<lparr>error_queue := error_queue T @ [e]\<rparr>, tr)"
  by (simp add: send_error_def Let_def)

lemma send_error_reaches:
  assumes "int (length (error_queue T)) + 1 = max_batch_size T"
  shows "send_error e T send tr =
     (fst (send_with_retry (T\<lparr>error_queue := []\<rparr>) send ''errors'' (error_queue T @ [e]) tr),
      T\<lparr>error_queue := []\<rparr>,
      snd (send_with_retry (T\<lparr>error_queue := []\<rparr>) send ''errors'' (error_queue T @ [e]) tr))"
proof -
  from assms have b: "slice_bound (error_queue T @ [e]) (max_batch_size T) = Suc (length (error_queue T))"
    by (auto simp: slice_bound_def)
  from assms show ?thesis
    by (simp add: send_error_def flush_errors_def Let_def slice_to_def slice_from_def b)
qed

lemma send_error_each_below:
  "int (length (error_queue T) + length es) < max_batch_size T \<Longrightarrow>
   send_error_each es T send tr = (None, T\<lparr>error_queue := error_queue T @ es\<rparr>, tr)"
proof (induction es arbitrary: T)
  case Nil
  then show ?case by simp
next
  case (Cons e es)
  then have "int (length (error_queue T)) + 1 < max_batch_size T"
    by simp
  then have s: "send_error e T send tr = (None, T\<lparr>error_queue := error_queue T @ [e]\<rparr>, tr)"
    by (rule send_error_below)
  from Cons.prems have "int (length (error_queue (T\<lparr>error_queue := error_queue T @ [e]\<rparr>)) + length es)
                        < max_batch_size (T\<lparr>error_queue := error_queue T @ [e]\<rparr>)"
    by simp
  from Cons.IH [OF this] show ?case
    by (simp add: s)
qed

lemma send_error_each_snoc:
  "send_error_each es T send tr = (None, T', tr') \<Longrightarrow>
   send_error_each (es @ [e]) T send tr = send_error e T' send tr'"
proof (induction es arbitrary: T tr)
  case Nil
  then show ?case by (simp split: prod.splits option.splits)
next
  case (Cons x xs)
  then show ?case
    by (auto split: prod.splits option.splits)
qed

text \<open>
  C5. Enqueuing errors one at a time until the error queue holds exactly
  \<open>max_batch_size\<close> records does, in all, what one call of \<open>_send_with_retry\<close> with
  the batch of exactly these records, oldest first, does, and leaves the queue empty;
  when that call's first send succeeds the effects are this one send.  A flush of the
  then empty queue changes nothing and has no effect.
\<close>

theorem error_batching:
  assumes "es \<noteq> []" and "int (length (error_queue T) + length es) = max_batch_size T"
  shows "send_error_each es T send tr
           = (fst (send_with_retry (T\<lparr>error_queue := []\<rparr>) send ''errors'' (error_queue T @ es) tr),
              T\<lparr>error_queue := []\<rparr>,
              snd (send_with_retry (T\<lparr>error_queue := []\<rparr>) send ''errors'' (error_queue T @ es) tr))
       \<and> (1 \<le> max_retries T \<and> send tr ''errors'' (error_queue T @ es) = None \<longrightarrow>
            send_error_each es T send tr
              = (None, T\<lparr>error_queue := []\<rparr>, tr @ [Send ''errors'' (error_queue T @ es)]))
       \<and> flush_errors (T\<lparr>error_queue := []\<rparr>) send tr' = (None, T\<lparr>error_queue := []\<rparr>, tr')"
proof -
  from assms(1) obtain xs e where es: "es = xs @ [e]"
    by (cases es rule: rev_cases) auto
  let ?T1 = "T\<lparr>error_queue := error_queue T @ xs\<rparr>"
  let ?T0 = "T\<lparr>error_queue := []\<rparr>"
  from assms(2) have "int (length (error_queue T) + length xs) < max_batch_size T"
    by (simp add: es)
  then have "send_error_each xs T send tr = (None, ?T1, tr)"
    by (rule send_error_each_below)
  then have "send_error_each es T send tr = send_error e ?T1 send tr"
    unfolding es by (rule send_error_each_snoc)
  moreover have "int (length (error_queue ?T1)) + 1 = max_batch_size ?T1"
    using assms(2) by (simp add: es)
  ultimately have main: "send_error_each es T send tr
           = (fst (send_with_retry ?T0 send ''errors'' (error_queue T @ es) tr), ?T0,
              snd (send_with_retry ?T0 send ''errors'' (error_queue T @ es) tr))"
    by (simp add: send_error_reaches es)
  have one: "send_with_retry ?T0 send ''errors'' (error_queue T @ es) tr
               = (None, tr @ [Send ''errors'' (error_queue T @ es)])"
    if "1 \<le> max_retries T \<and> send tr ''errors'' (error_queue T @ es) = None"
    using that by (simp add: send_with_retry_def retry_loop_success)
  have empty: "flush_errors ?T0 send tr' = (None, ?T0, tr')"
    by (simp add: flush_errors_def)
  from main one empty show ?thesis
    by simp
qed

theorem error_batching_witness:
  "send_error_each [1, 2, 3 :: nat]
      (BaseTransport_init ''http://localhost:3000/api/v1/telemetry'' ''pk_x'' ''proj_y''
         (Finite 30) 3 3 False)
      (\<lambda>tr k p. None) []
     = (None,
        BaseTransport_init ''http://localhost:3000/api/v1/telemetry'' ''pk_x'' ''proj_y''
          (Finite 30) 3 3 False,
        [] @ [Send ''errors'' [1, 2, 3]])
   \<and> flush_errors
       (BaseTransport_init ''http://localhost:3000/api/v1/telemetry'' ''pk_x'' ''proj_y''
          (Finite 30) 3 3 False)
       (\<lambda>tr k p. None) [Send ''errors'' [1, 2, 3 :: nat]]
     = (None,
        BaseTransport_init ''http://localhost:3000/api/v1/telemetry'' ''pk_x'' ''proj_y''
          (Finite 30) 3 3 False,
        [Send ''errors'' [1, 2, 3]])"
proof -
  let ?T = "BaseTransport_init ''http://localhost:3000/api/v1/telemetry'' ''pk_x'' ''proj_y''
              (Finite 30) 3 3 False :: nat BaseTransport"
  let ?send = "(\<lambda>tr k p. None) :: nat sender"
  have ne: "[1, 2, 3 :: nat] \<noteq> []"
    and len: "int (length (error_queue ?T) + length [1, 2, 3 :: nat]) = max_batch_size ?T"
    by (simp_all add: BaseTransport_init_def)
  have ok: "1 \<le> max_retries ?T \<and> ?send [] ''errors'' (error_queue ?T @ [1, 2, 3]) = None"
    by (simp add: BaseTransport_init_def)
  have q: "error_queue ?T @ [1, 2, 3] = [1, 2, 3]" and T: "?T\<lparr>error_queue := []\<rparr> = ?T"
    by (simp_all add: BaseTransport_init_def)
  note t = error_batching [OF ne len, of ?send "[]" "[Send ''errors'' [1, 2, 3]]", unfolded q T]
  show ?thesis
    by (intro conjI t [THEN conjunct2, THEN conjunct1, THEN mp, OF ok [unfolded q]]
          t [THEN conjunct2, THEN conjunct2])
qed

section \<open>Properties of scopes\<close>

lemma trim_nonneg: "0 \<le> m \<Longrightarrow> trim xs m = (None, drop (length xs - nat m) xs)"
proof (induction xs)
  case Nil
  then show ?case by (subst trim.simps) simp
next
  case (Cons x xs)
  show ?case
  proof (cases "m < int (length (x # xs))")
    case True
    with Cons.prems have "length (x # xs) - nat m = Suc (length xs - nat m)"
      by simp
    with True Cons show ?thesis
      by (subst trim.simps) simp
  next
    case False
    then show ?thesis
      by (subst trim.simps) simp
  qed
qed

lemma well_formed_scope:
  assumes "well_formed st sc"
  shows "sc < length st" and "st ! sc = ScopeObj (scope_at st sc)"
    and "is_dict st (tags (scope_at st sc))" and "is_dict st (extra (scope_at st sc))"
    and "is_list st (breadcrumbs (scope_at st sc))"
  using assms by (auto simp: well_formed_def scope_at_def split: obj.splits)

lemma is_list_cell: "is_list st a \<Longrightarrow> a < length st \<and> (\<exists>l. st ! a = List l)"
  by (auto simp: is_list_def split: obj.splits)

lemma is_dict_cell: "is_dict st a \<Longrightarrow> a < length st \<and> (\<exists>d. st ! a = Dict d)"
  by (auto simp: is_dict_def split: obj.splits)

lemma is_crumb_cell:
  "is_crumb st v \<Longrightarrow> \<exists>a b. v = Ref a \<and> a < length st \<and> st ! a = Crumb b"
  by (auto simp: is_crumb_def split: pyval.splits obj.splits)

lemma last_n_last_n: "last_n k (last_n k xs @ ys) = last_n k (xs @ ys)"
  by (cases "k \<le> length xs") (simp_all add: last_n_def add.commute)

lemma map_last_n: "map f (last_n k xs) = last_n k (map f xs)"
  by (simp add: last_n_def drop_map)

lemma add_breadcrumb_buffer:
  assumes wf: "well_formed st sc"
    and crumbs: "list_all (is_crumb st) (list_of (st ! breadcrumbs (scope_at st sc)))"
    and cap: "0 \<le> max_breadcrumbs (scope_at st sc)"
  shows "fst (add_breadcrumb sc ty cat msg d lvl now st) = None"
    and "well_formed (snd (add_breadcrumb sc ty cat msg d lvl now st)) sc"
    and "scope_at (snd (add_breadcrumb sc ty cat msg d lvl now st)) sc = scope_at st sc"
    and "list_all (is_crumb (snd (add_breadcrumb sc ty cat msg d lvl now st)))
           (list_of (snd (add_breadcrumb sc ty cat msg d lvl now st) ! breadcrumbs (scope_at st sc)))"
    and "buffer (snd (add_breadcrumb sc ty cat msg d lvl now st)) sc
           = last_n (nat (max_breadcrumbs (scope_at st sc)))
               (buffer st sc @ [built (ty, cat, msg, d, lvl, now)])"
proof -
  let ?s = "scope_at st sc"
  let ?bl = "breadcrumbs ?s"
  let ?K = "nat (max_breadcrumbs ?s)"
  let ?c = "built (ty, cat, msg, d, lvl, now)"
  let ?st1 = "st @ [Crumb ?c]"
  let ?L = "list_of (st ! ?bl)"
  let ?L' = "last_n ?K (?L @ [Ref (length st)])"
  let ?st' = "?st1[?bl := List ?L']"
  note w = well_formed_scope [OF wf]
  from is_list_cell [OF w(5)] obtain L0 where bl: "?bl < length st" and cell: "st ! ?bl = List L0"
    by auto
  have ne: "sc \<noteq> ?bl"
    using w(2) cell by auto
  have r: "add_breadcrumb sc ty cat msg d lvl now st = (None, ?st')"
    using bl cap
    by (simp add: add_breadcrumb_def Let_def built_def nth_append trim_nonneg last_n_def)
  show "fst (add_breadcrumb sc ty cat msg d lvl now st) = None"
    by (simp add: r)
  have at_sc: "?st' ! sc = st ! sc"
    using ne w(1) by (simp add: nth_append)
  then show sa: "scope_at (snd (add_breadcrumb sc ty cat msg d lvl now st)) sc = ?s"
    by (simp add: r scope_at_def)
  have len: "length ?st' = Suc (length st)"
    by simp
  have at_bl: "?st' ! ?bl = List ?L'"
    using bl by simp
  have keep: "?st' ! a = st ! a" if "a < length st" "a \<noteq> ?bl" for a
    using that by (simp add: nth_append)
  have kind: "is_dict ?st' a" if "is_dict st a" for a
  proof -
    from is_dict_cell [OF that] obtain d0 where a: "a < length st" "st ! a = Dict d0"
      by auto
    with cell have "a \<noteq> ?bl"
      by auto
    with a keep [of a] show ?thesis
      by (simp add: is_dict_def)
  qed
  have kindl: "is_list ?st' a" if "is_list st a" for a
  proof (cases "a = ?bl")
    case True
    then show ?thesis using bl by (simp add: is_list_def)
  next
    case False
    from is_list_cell [OF that] obtain l0 where a: "a < length st" "st ! a = List l0"
      by auto
    with False keep [of a] show ?thesis
      by (simp add: is_list_def)
  qed
  show "well_formed (snd (add_breadcrumb sc ty cat msg d lvl now st)) sc"
    using wf w(1) at_sc kind kindl
    by (auto simp: r well_formed_def split: obj.splits option.splits)
  have old: "is_crumb ?st' v \<and> crumb_of (?st' ! target v) = crumb_of (st ! target v)"
    if "is_crumb st v" for v
  proof -
    from is_crumb_cell [OF that] obtain a b
      where v: "v = Ref a" and a: "a < length st" "st ! a = Crumb b"
      by auto
    with cell have "a \<noteq> ?bl"
      by auto
    with a keep [of a] show ?thesis
      by (simp add: v is_crumb_def target_def)
  qed
  have new: "is_crumb ?st' (Ref (length st))" "crumb_of (?st' ! target (Ref (length st))) = ?c"
    using bl by (simp_all add: is_crumb_def target_def nth_append)
  have all: "list_all (is_crumb ?st') (?L @ [Ref (length st)])"
    using crumbs old new(1) by (auto simp: list_all_iff)
  then have "list_all (is_crumb ?st') ?L'"
    by (auto simp: list_all_iff last_n_def dest: in_set_dropD)
  then show "list_all (is_crumb (snd (add_breadcrumb sc ty cat msg d lvl now st)))
           (list_of (snd (add_breadcrumb sc ty cat msg d lvl now st) ! ?bl))"
    by (simp add: r at_bl)
  have m: "map (\<lambda>v. crumb_of (?st' ! target v)) (?L @ [Ref (length st)]) = buffer st sc @ [?c]"
    using crumbs old new(2) by (auto simp: buffer_def list_all_iff)
  have "map (\<lambda>v. crumb_of (?st' ! target v)) ?L' = last_n ?K (buffer st sc @ [?c])"
    by (simp only: map_last_n m)
  then show "buffer (snd (add_breadcrumb sc ty cat msg d lvl now st)) sc
           = last_n ?K (buffer st sc @ [?c])"
    using sa by (simp add: r buffer_def at_bl)
qed

lemma last_n_append: "k \<le> length ys \<Longrightarrow> last_n k (xs @ ys) = last_n k ys"
  by (simp add: last_n_def)

lemma length_last_n: "k \<le> length xs \<Longrightarrow> length (last_n k xs) = k"
  by (simp add: last_n_def)

lemma add_breadcrumbs_buffer:
  assumes "well_formed st sc"
    and "list_all (is_crumb st) (list_of (st ! breadcrumbs (scope_at st sc)))"
    and "0 \<le> max_breadcrumbs (scope_at st sc)"
  shows "fst (add_breadcrumbs sc args st) = None
       \<and> buffer (snd (add_breadcrumbs sc args st)) sc
           = (if args = [] then buffer st sc
              else last_n (nat (max_breadcrumbs (scope_at st sc))) (buffer st sc @ map built args))"
  using assms
proof (induction args arbitrary: st)
  case Nil
  then show ?case by simp
next
  case (Cons a rest)
  obtain ty cat msg d lvl now where a: "a = (ty, cat, msg, d, lvl, now)"
    by (cases a) auto
  note step = add_breadcrumb_buffer [OF Cons.prems, of ty cat msg d lvl now]
  obtain st1 where r: "add_breadcrumb sc ty cat msg d lvl now st = (None, st1)"
    using step(1) by (cases "add_breadcrumb sc ty cat msg d lvl now st") simp
  from step(2-5) have wf1: "well_formed st1 sc" and s: "scope_at st1 sc = scope_at st sc"
    and crumbs1: "list_all (is_crumb st1) (list_of (st1 ! breadcrumbs (scope_at st sc)))"
    and buf1: "buffer st1 sc = last_n (nat (max_breadcrumbs (scope_at st sc)))
                 (buffer st sc @ [built (ty, cat, msg, d, lvl, now)])"
    by (simp_all add: r)
  have "list_all (is_crumb st1) (list_of (st1 ! breadcrumbs (scope_at st1 sc)))"
    using crumbs1 by (simp only: s)
  moreover have "0 \<le> max_breadcrumbs (scope_at st1 sc)"
    using Cons.prems(3) by (simp only: s)
  ultimately have IH: "fst (add_breadcrumbs sc rest st1) = None
       \<and> buffer (snd (add_breadcrumbs sc rest st1)) sc
           = (if rest = [] then buffer st1 sc
              else last_n (nat (max_breadcrumbs (scope_at st1 sc))) (buffer st1 sc @ map built rest))"
    by (intro Cons.IH wf1)
  have unfold: "add_breadcrumbs sc (a # rest) st = add_breadcrumbs sc rest st1"
    by (simp add: a r)
  show ?case
    unfolding unfold using IH
    by (simp add: s buf1 a last_n_last_n)
qed

text \<open>
  C6. Take a scope whose capacity \<open>K\<close> is not negative, and add \<open>N > K\<close> breadcrumbs
  to it one after the other.  No call raises, and afterwards the buffer holds exactly
  \<open>K\<close> breadcrumbs: the last \<open>K\<close> that were added, in the order of their insertion.
\<close>

theorem breadcrumb_ring_buffer:
  assumes "well_formed st sc"
    and "list_all (is_crumb st) (list_of (st ! breadcrumbs (scope_at st sc)))"
    and "0 \<le> max_breadcrumbs (scope_at st sc)"
    and "max_breadcrumbs (scope_at st sc) < int (length args)"
  shows "fst (add_breadcrumbs sc args st) = None
       \<and> buffer (snd (add_breadcrumbs sc args st)) sc
           = last_n (nat (max_breadcrumbs (scope_at st sc))) (map built args)
       \<and> int (length (buffer (snd (add_breadcrumbs sc args st)) sc)) = max_breadcrumbs (scope_at st sc)"
proof -
  let ?K = "nat (max_breadcrumbs (scope_at st sc))"
  from assms(3,4) have ne: "args \<noteq> []" and k: "?K \<le> length (map built args)"
    by auto
  from add_breadcrumbs_buffer [OF assms(1-3), of args] ne
  have ok: "fst (add_breadcrumbs sc args st) = None"
    and b: "buffer (snd (add_breadcrumbs sc args st)) sc = last_n ?K (buffer st sc @ map built args)"
    by simp_all
  from b have b': "buffer (snd (add_breadcrumbs sc args st)) sc = last_n ?K (map built args)"
    by (simp only: last_n_append [OF k])
  have "length (last_n ?K (map built args)) = ?K"
    by (rule length_last_n [OF k])
  with assms(3) have "int (length (last_n ?K (map built args))) = max_breadcrumbs (scope_at st sc)"
    by simp
  with ok b' show ?thesis
    by simp
qed

lemma Scope_init_well_formed:
  "well_formed (snd (Scope_init n st)) (fst (Scope_init n st))"
  "scope_at (snd (Scope_init n st)) (fst (Scope_init n st))
     = \<lparr>user = None, tags = length st, extra = length st + 1, breadcrumbs = length st + 2,
        fingerprint = None, max_breadcrumbs = n\<rparr>"
  "list_of (snd (Scope_init n st) ! breadcrumbs (scope_at (snd (Scope_init n st)) (fst (Scope_init n st)))) = []"
  by (simp_all add: Scope_init_def well_formed_def is_dict_def is_list_def scope_at_def nth_append)

theorem breadcrumb_ring_buffer_witness:
  "fst (add_breadcrumbs (fst (Scope_init 2 []))
          [(DEFAULT, ''test'', Some ''Breadcrumb 0'', None, INFO, ''t0''),
           (DEFAULT, ''test'', Some ''Breadcrumb 1'', None, INFO, ''t1''),
           (DEFAULT, ''test'', Some ''Breadcrumb 2'', None, INFO, ''t2'')]
          (snd (Scope_init 2 []))) = None
   \<and> buffer (snd (add_breadcrumbs (fst (Scope_init 2 []))
          [(DEFAULT, ''test'', Some ''Breadcrumb 0'', None, INFO, ''t0''),
           (DEFAULT, ''test'', Some ''Breadcrumb 1'', None, INFO, ''t1''),
           (DEFAULT, ''test'', Some ''Breadcrumb 2'', None, INFO, ''t2'')]
          (snd (Scope_init 2 [])))) (fst (Scope_init 2 []))
       = last_n (nat (max_breadcrumbs (scope_at (snd (Scope_init 2 [])) (fst (Scope_init 2 [])))))
           (map built
              [(DEFAULT, ''test'', Some ''Breadcrumb 0'', None, INFO, ''t0''),
               (DEFAULT, ''test'', Some ''Breadcrumb 1'', None, INFO, ''t1''),
               (DEFAULT, ''test'', Some ''Breadcrumb 2'', None, INFO, ''t2'')])
   \<and> int (length (buffer (snd (add_breadcrumbs (fst (Scope_init 2 []))
          [(DEFAULT, ''test'', Some ''Breadcrumb 0'', None, INFO, ''t0''),
           (DEFAULT, ''test'', Some ''Breadcrumb 1'', None, INFO, ''t1''),
           (DEFAULT, ''test'', Some ''Breadcrumb 2'', None, INFO, ''t2'')]
          (snd (Scope_init 2 [])))) (fst (Scope_init 2 []))))
       = max_breadcrumbs (scope_at (snd (Scope_init 2 [])) (fst (Scope_init 2 [])))"
proof -
  let ?st = "snd (Scope_init 2 [])" and ?sc = "fst (Scope_init 2 [])"
  have wf: "well_formed ?st ?sc"
    by (rule Scope_init_well_formed)
  have crumbs: "list_all (is_crumb ?st) (list_of (?st ! breadcrumbs (scope_at ?st ?sc)))"
    by (subst Scope_init_well_formed(3)) simp
  have cap: "0 \<le> max_breadcrumbs (scope_at ?st ?sc)"
    by (simp add: Scope_init_well_formed)
  have more: "max_breadcrumbs (scope_at ?st ?sc)
        < int (length [(DEFAULT, ''test'', Some ''Breadcrumb 0'', None :: nat option, INFO, ''t0''),
           (DEFAULT, ''test'', Some ''Breadcrumb 1'', None, INFO, ''t1''),
           (DEFAULT, ''test'', Some ''Breadcrumb 2'', None, INFO, ''t2'')])"
    by (simp add: Scope_init_well_formed)
  show ?thesis
    by (rule breadcrumb_ring_buffer [OF wf crumbs cap more])
qed

















lemma nth_store_plus: "(st @ ys) ! (length st + n) = ys ! n"
  by (rule nth_append_length_plus)




















lemma example_source_eq:
  "example_source =
     (4, [Dict [''k'' \<mapsto> Str ''v''], Dict Map.empty, Dict Map.empty, List [Ref 5],
          ScopeObj \<lparr>user = None, tags = 1, extra = 2, breadcrumbs = 3, fingerprint = None,
                    max_breadcrumbs = 100\<rparr>,
          Crumb \<lparr>crumb_type = DEFAULT, category = ''test'',
                 timestamp = ''2026-01-01T00:00:00+00:00Z'', crumb_message = None,
                 data = Some 0, level = INFO\<rparr>])"
  by (simp add: example_source_def Scope_init_def add_breadcrumb_def Let_def scope_at_def
      trim_nonneg)

lemma example_clone_eq:
  "clone (fst example_source) (snd example_source) =
     (9, snd example_source @
         [Dict Map.empty, Dict Map.empty, List [Ref 5],
          ScopeObj \<lparr>user = None, tags = 6, extra = 7, breadcrumbs = 8, fingerprint = None,
                    max_breadcrumbs = 100\<rparr>])"
  by (simp add: example_source_eq clone_def copy_if_true_def Let_def scope_at_def)



lemma example_clone_store:
  "example_clone =
     (9, [Dict [''k'' \<mapsto> Str ''v''], Dict Map.empty, Dict Map.empty, List [Ref 5],
          ScopeObj \<lparr>user = None, tags = 1, extra = 2, breadcrumbs = 3, fingerprint = None,
                    max_breadcrumbs = 100\<rparr>,
          Crumb \<lparr>crumb_type = DEFAULT, category = ''test'',
                 timestamp = ''2026-01-01T00:00:00+00:00Z'', crumb_message = None,
                 data = Some 0, level = INFO\<rparr>,
          Dict Map.empty, Dict Map.empty, List [Ref 5],
          ScopeObj \<lparr>user = None, tags = 6, extra = 7, breadcrumbs = 8, fingerprint = None,
                    max_breadcrumbs = 100\<rparr>])"
  by (simp add: example_clone_def example_clone_eq) (simp add: example_source_eq)


text \<open>
  Why such a call is left out: after \<open>source.set_user(clone.tags)\<close> the source shows
  the clone's tags as its user, and \<open>clone.set_tag("a", "b")\<close> changes them.
\<close>

lemma set_user_can_alias:
  "map_option (\<lambda>d. d ''a'')
     (fst (shown (run [(fst example_source, SetUser (Some 6))] (snd example_clone))
        (fst example_source)))
     = Some None
   \<and> map_option (\<lambda>d. d ''a'')
     (fst (shown (run [(fst example_source, SetUser (Some 6)),
                       (fst example_clone, SetTag ''a'' ''b'')] (snd example_clone))
        (fst example_source)))
     = Some (Some (Str ''b''))
   \<and> \<not> foreign (snd example_clone) (fst example_clone) (SetUser (Some 6))"
  by (simp add: example_source_eq example_clone_store shown_def scope_at_def set_user_def
      set_tag_def Let_def foreign_def own_def)

end
